theory Spec2Isabelle
  imports Complex_Main
begin

section \<open>Numbers\<close>

text \<open>
  The client computes on JavaScript numbers. A finite number is modelled by the rational
  it denotes, so arithmetic is exact; rounding, signed zero and overflow to an infinity are
  outside this model. Where the source depends on a non-finite value, the value is written
  out: \<open>NaN\<close> where a string fails to parse, \<open>-Infinity\<close> for the maximum of no
  arguments.
\<close>

datatype jsnum = NaN | Fin rat

text \<open>\<open>isNaN\<close> on a number.\<close>

fun isNaN :: "jsnum \<Rightarrow> bool" where
  "isNaN NaN = True"
| "isNaN (Fin _) = False"

section \<open>Chart value scaler\<close>

datatype scale = units | thousands | millions

text \<open>
  \<open>Math.max(...xs)\<close> on finite numbers: \<open>-Infinity\<close> for no arguments, written
  \<open>None\<close>.
\<close>

fun Math_max :: "rat list \<Rightarrow> rat option" where
  "Math_max [] = None"
| "Math_max (x # xs) = (case Math_max xs of None \<Rightarrow> Some x | Some m \<Rightarrow> Some (max x m))"

text \<open>\<open>m >= c\<close> where \<open>m\<close> may be \<open>-Infinity\<close>.\<close>

fun ge_bound :: "rat option \<Rightarrow> rat \<Rightarrow> bool" where
  "ge_bound None c = False"
| "ge_bound (Some m) c = (c \<le> m)"

definition determineScale :: "rat list \<Rightarrow> scale" where
  "determineScale values =
     (let maxValue = Math_max (map abs values)
      in if ge_bound maxValue 1000000 then millions
         else if ge_bound maxValue 1000 then thousands
         else units)"

section \<open>Cash-flow records\<close>

text \<open>
  A \<open>CashFlowProjection\<close> carries its three amounts as decimal strings. A field that is
  present is modelled by the number its string denotes, a field that is absent
  (\<open>undefined\<close>) by \<open>None\<close>; strings that do not denote a finite number are outside
  this model. The \<open>date\<close> is the instant its ISO string denotes, in milliseconds.
\<close>

record CashFlowProjection =
  date :: int
  projectedIncome :: "rat option"
  projectedExpenses :: "rat option"
  netFlow :: "rat option"

text \<open>\<open>parseFloat(field)\<close>: \<open>NaN\<close> for an absent field.\<close>

definition parseField :: "rat option \<Rightarrow> jsnum" where
  "parseField f = (case f of None \<Rightarrow> NaN | Some v \<Rightarrow> Fin v)"

text \<open>\<open>parseFloat(field || '0')\<close> and, on an optional number, \<open>(x || 0)\<close>.\<close>

definition or0 :: "rat option \<Rightarrow> rat" where
  "or0 f = (case f of None \<Rightarrow> 0 | Some v \<Rightarrow> v)"

text \<open>The comparisons \<open><\<close> and \<open>>\<close> of JavaScript: false when a side is \<open>NaN\<close>.\<close>

fun jlt :: "jsnum \<Rightarrow> jsnum \<Rightarrow> bool" where
  "jlt (Fin a) (Fin b) = (a < b)"
| "jlt _ _ = False"

definition jgt :: "jsnum \<Rightarrow> jsnum \<Rightarrow> bool" where
  "jgt a b = jlt b a"

datatype level = low | medium | high

section \<open>Insight generator: trend detection\<close>

datatype insight_type = pattern | opportunity | recommendation | alert

datatype impact = positive | negative | neutral

text \<open>
  A \<open>SmartInsight\<close> without its two display texts (\<open>title\<close>, \<open>description\<close>), which
  no rule reads.
\<close>

record SmartInsight =
  insight_id :: string
  insight_type :: insight_type
  priority :: level
  confidence :: rat
  impact :: impact
  actionable :: bool

text \<open>\<open>arr.every((value, index, arr) => p)\<close>.\<close>

definition every :: "('a \<Rightarrow> nat \<Rightarrow> 'a list \<Rightarrow> bool) \<Rightarrow> 'a list \<Rightarrow> bool" where
  "every p arr = list_all (\<lambda>index. p (arr ! index) index arr) [0..<length arr]"

text \<open>\<open>arr.slice(-3)\<close>: the last three elements, or all of a shorter list.\<close>

definition slice_last3 :: "'a list \<Rightarrow> 'a list" where
  "slice_last3 arr = drop (length arr - 3) arr"

definition detectCashFlowTrends :: "CashFlowProjection list \<Rightarrow> SmartInsight list" where
  "detectCashFlowTrends cashFlowData =
     (if length cashFlowData < 3 then []
      else
        let netFlows = map (\<lambda>d. parseField (netFlow d)) cashFlowData;
            isDecreasing =
              every (\<lambda>v index arr. index = 0 \<or> jlt v (arr ! (index - 1))) (slice_last3 netFlows);
            isIncreasing =
              every (\<lambda>v index arr. index = 0 \<or> jgt v (arr ! (index - 1))) (slice_last3 netFlows)
        in if isDecreasing then
             [\<lparr>insight_id = ''trend-decreasing'', insight_type = alert, priority = high,
               confidence = 9 / 10, impact = negative, actionable = True\<rparr>]
           else if isIncreasing then
             [\<lparr>insight_id = ''trend-increasing'', insight_type = opportunity, priority = medium,
               confidence = 85 / 100, impact = positive, actionable = True\<rparr>]
           else [])"

text \<open>A series with the given net flows, for evaluating the rule.\<close>

definition flows :: "rat list \<Rightarrow> CashFlowProjection list" where
  "flows ns = map (\<lambda>n. \<lparr>date = 0, projectedIncome = Some 0, projectedExpenses = Some 0,
                        netFlow = Some n\<rparr>) ns"

section \<open>Cash-flow projection engine: metrics\<close>

text \<open>
  The percentages and one-time amounts of a \<open>Scenario\<close> are finite numbers (sliders and
  inputs that fall back to 0); its three optional fields are \<open>None\<close> when absent.
\<close>

record Scenario =
  name :: string
  incomeGrowth :: rat
  expenseReduction :: rat
  oneTimeIncome :: rat
  oneTimeExpense :: rat
  marketGrowth :: "rat option"
  inflationRate :: "rat option"
  timeFrame :: "rat option"

record ProjectionMetrics =
  totalProjectedIncome :: rat
  totalProjectedExpenses :: rat
  netProjectedFlow :: rat
  worstCaseScenario :: rat
  bestCaseScenario :: rat
  averageMonthlyFlow :: rat
  breakEvenPoint :: rat
  riskLevel :: level

text \<open>
  \<open>data.reduce((sum, item) => sum + parseFloat(field(item) || '0'), 0) / data.length\<close>.
\<close>

definition reduceAvg :: "(CashFlowProjection \<Rightarrow> rat option) \<Rightarrow> CashFlowProjection list \<Rightarrow> rat" where
  "reduceAvg field data =
     foldl (\<lambda>sum item. sum + or0 (field item)) 0 data / of_nat (length data)"

text \<open>
  The historical averages \<open>(avgIncome, avgExpenses)\<close> of \<open>calculateProjectionMetrics\<close>:
  both start at 0; when the first entry has no \<open>projectedIncome\<close> they are estimated
  from the average net flow.
\<close>

definition historicalAverages :: "CashFlowProjection list \<Rightarrow> rat \<times> rat" where
  "historicalAverages data =
     (case data of
        [] \<Rightarrow> (0, 0)
      | first # _ \<Rightarrow>
          if projectedIncome first \<noteq> None then
            (reduceAvg projectedIncome data, reduceAvg projectedExpenses data)
          else
            let avgNetFlow = reduceAvg netFlow data;
                avgIncome = \<bar>avgNetFlow\<bar> * (17 / 10);
                avgExpenses = \<bar>avgNetFlow\<bar> * (7 / 10)
            in if avgNetFlow < 0 then (avgExpenses, avgIncome) else (avgIncome, avgExpenses))"

text \<open>
  The scenario adjustments: the projected monthly income and expenses (the locals
  \<open>projectedIncome\<close> and \<open>projectedExpenses\<close> of \<open>calculateProjectionMetrics\<close>).
\<close>

definition projectedMonthly :: "CashFlowProjection list \<Rightarrow> Scenario \<Rightarrow> rat \<times> rat" where
  "projectedMonthly data scenario =
     (let (avgIncome, avgExpenses) = historicalAverages data
      in (avgIncome * (1 + incomeGrowth scenario / 100) * (1 + or0 (marketGrowth scenario) / 100),
          avgExpenses * (1 - expenseReduction scenario / 100)
            * (1 + or0 (inflationRate scenario) / 100 / 12)))"

definition calculateProjectionMetrics ::
  "CashFlowProjection list \<Rightarrow> Scenario \<Rightarrow> rat \<Rightarrow> ProjectionMetrics" where
  "calculateProjectionMetrics data scenario months =
     (if length data = 0 then
        \<lparr>totalProjectedIncome = 0, totalProjectedExpenses = 0, netProjectedFlow = 0,
         worstCaseScenario = 0, bestCaseScenario = 0, averageMonthlyFlow = 0,
         breakEvenPoint = 0, riskLevel = medium\<rparr>
      else
        let (avgIncome, avgExpenses) = historicalAverages data;
            (monthlyIncome, monthlyExpenses) = projectedMonthly data scenario;
            monthlyNetFlow = monthlyIncome - monthlyExpenses;
            totalIncome = monthlyIncome * months + oneTimeIncome scenario;
            totalExpenses = monthlyExpenses * months + oneTimeExpense scenario;
            netFlowTotal = totalIncome - totalExpenses;
            variance = \<bar>monthlyNetFlow * (2 / 10)\<bar>;
            worstCase = netFlowTotal - variance * months;
            bestCase = netFlowTotal + variance * months;
            risk = (if worstCase < 0 \<and> netFlowTotal < avgIncome * 2 then high
                    else if netFlowTotal > avgIncome * 6 then low
                    else medium)
        in \<lparr>totalProjectedIncome = totalIncome, totalProjectedExpenses = totalExpenses,
            netProjectedFlow = netFlowTotal, worstCaseScenario = worstCase,
            bestCaseScenario = bestCase, averageMonthlyFlow = monthlyNetFlow,
            breakEvenPoint = (if monthlyExpenses > 0 then monthlyIncome / monthlyExpenses else 0),
            riskLevel = risk\<rparr>)"

text \<open>
  \<open>calculateModifiedData\<close> parses each amount without a fallback, so an absent amount is
  \<open>NaN\<close> and stays \<open>NaN\<close> through the arithmetic. Its result replaces the three amounts
  of each entry by the printed numbers, modelled by the numbers themselves.
\<close>

fun japp :: "(rat \<Rightarrow> rat) \<Rightarrow> jsnum \<Rightarrow> jsnum" where
  "japp f NaN = NaN"
| "japp f (Fin x) = Fin (f x)"

fun japp2 :: "(rat \<Rightarrow> rat \<Rightarrow> rat) \<Rightarrow> jsnum \<Rightarrow> jsnum \<Rightarrow> jsnum" where
  "japp2 f (Fin x) (Fin y) = Fin (f x y)"
| "japp2 f _ _ = NaN"

record ModifiedProjection =
  mdate :: int
  modifiedIncome :: jsnum
  modifiedExpenses :: jsnum
  modifiedNetFlow :: jsnum

definition calculateModifiedData ::
  "CashFlowProjection list \<Rightarrow> Scenario \<Rightarrow> ModifiedProjection list" where
  "calculateModifiedData originalData scenario =
     map (\<lambda>(item, index).
            let income = parseField (projectedIncome item);
                expenses = parseField (projectedExpenses item);
                income1 = japp (\<lambda>v. v * (1 + incomeGrowth scenario / 100)) income;
                expenses1 = japp (\<lambda>v. v * (1 - expenseReduction scenario / 100)) expenses;
                finalIncome =
                  (if index = 0 then japp (\<lambda>v. v + oneTimeIncome scenario) income1 else income1);
                finalExpenses =
                  (if index = 0 then japp (\<lambda>v. v + oneTimeExpense scenario) expenses1
                   else expenses1)
            in \<lparr>mdate = date item, modifiedIncome = finalIncome,
                modifiedExpenses = finalExpenses,
                modifiedNetFlow = japp2 (-) finalIncome finalExpenses\<rparr>)
         (zip originalData [0..<length originalData])"

text \<open>The arithmetic mean, as the specification's "historical average".\<close>

definition mean :: "rat list \<Rightarrow> rat" where
  "mean xs = sum_list xs / of_nat (length xs)"

text \<open>A scenario with the given six numbers, and a series with the given incomes and expenses.\<close>

definition scen :: "rat \<Rightarrow> rat \<Rightarrow> rat \<Rightarrow> rat \<Rightarrow> rat \<Rightarrow> rat \<Rightarrow> Scenario" where
  "scen ig er oi oe mg ir =
     \<lparr>name = ''s'', incomeGrowth = ig, expenseReduction = er, oneTimeIncome = oi,
      oneTimeExpense = oe, marketGrowth = Some mg, inflationRate = Some ir,
      timeFrame = Some 6\<rparr>"

definition series :: "(rat \<times> rat) list \<Rightarrow> CashFlowProjection list" where
  "series ps = map (\<lambda>(i, e). \<lparr>date = 0, projectedIncome = Some i, projectedExpenses = Some e,
                              netFlow = Some (i - e)\<rparr>) ps"

text \<open>A series whose entries carry a net flow only.\<close>

definition netOnly :: "rat list \<Rightarrow> CashFlowProjection list" where
  "netOnly ns = map (\<lambda>n. \<lparr>date = 0, projectedIncome = None, projectedExpenses = None,
                            netFlow = Some n\<rparr>) ns"

section \<open>Currency conversion service\<close>

datatype Currency = ARS | USD

text \<open>An amount handed to the service: \<open>string | number\<close>.\<close>

datatype amount = Str string | Num jsnum

text \<open>
  The part of the provider's state that \<open>formatAmount\<close> and \<open>convertAmount\<close> read: the
  display currency and the current rate (\<open>number | null\<close>, \<open>None\<close> for \<open>null\<close>).
\<close>

record CurrencyState =
  currency :: Currency
  exchangeRate :: "rat option"

text \<open>
  \<open>typeof amount === 'string' ? parseFloat(amount) : amount\<close>. The built-in
  \<open>parseFloat\<close> is a parameter \<open>pf\<close> of the model: every property below holds for each
  function from strings to numbers.
\<close>

definition toNumber :: "(string \<Rightarrow> jsnum) \<Rightarrow> amount \<Rightarrow> jsnum" where
  "toNumber pf a = (case a of Str s \<Rightarrow> pf s | Num n \<Rightarrow> n)"

text \<open>The rate as a condition (\<open>null\<close> and 0 are false) and as an operand (\<open>null\<close> is 0).\<close>

definition truthy :: "rat option \<Rightarrow> bool" where
  "truthy r = (case r of None \<Rightarrow> False | Some v \<Rightarrow> v \<noteq> 0)"

definition rateValue :: "rat option \<Rightarrow> rat" where
  "rateValue r = (case r of None \<Rightarrow> 0 | Some v \<Rightarrow> v)"

definition convertAmount ::
  "(string \<Rightarrow> jsnum) \<Rightarrow> CurrencyState \<Rightarrow> amount \<Rightarrow> Currency \<Rightarrow> Currency \<Rightarrow> jsnum" where
  "convertAmount pf st a fromCurrency toCurrency =
     (case toNumber pf a of
        NaN \<Rightarrow> Fin 0
      | Fin numericAmount \<Rightarrow>
          if \<not> truthy (exchangeRate st) then Fin 0
          else if fromCurrency = toCurrency then Fin numericAmount
          else if fromCurrency = ARS \<and> toCurrency = USD
            then Fin (numericAmount / rateValue (exchangeRate st))
          else if fromCurrency = USD \<and> toCurrency = ARS
            then Fin (numericAmount * rateValue (exchangeRate st))
          else Fin numericAmount)"

subsection \<open>Number formatting for the locale es-AR\<close>

text \<open>
  \<open>new Intl.NumberFormat('es-AR', {style: 'decimal', minimumFractionDigits: d,
  maximumFractionDigits: d}).format(x)\<close>: the number rounded to \<open>d\<close> fraction digits
  (half away from zero), the integer digits grouped in threes by \<open>.\<close>, the fraction after
  \<open>,\<close>, a leading \<open>-\<close> for a negative number.
\<close>

definition digit_char :: "nat \<Rightarrow> char" where
  "digit_char n = ''0123456789'' ! n"

fun digits :: "nat \<Rightarrow> string" where
  "digits n = (if n < 10 then [digit_char n] else digits (n div 10) @ [digit_char (n mod 10)])"

fun group3 :: "string \<Rightarrow> string" where
  "group3 ds =
     (if length ds \<le> 3 then ds
      else group3 (take (length ds - 3) ds) @ ''.'' @ drop (length ds - 3) ds)"

declare digits.simps [simp del] group3.simps [simp del]

definition pad_zeros :: "nat \<Rightarrow> string \<Rightarrow> string" where
  "pad_zeros d s = replicate (d - length s) (CHR ''0'') @ s"

definition format_nonneg :: "nat \<Rightarrow> rat \<Rightarrow> string" where
  "format_nonneg d x =
     (let n = nat \<lfloor>x * 10 ^ d + 1 / 2\<rfloor>
      in group3 (digits (n div 10 ^ d))
         @ (if d = 0 then [] else '','' @ pad_zeros d (digits (n mod 10 ^ d))))"

definition numberFormat_es_AR :: "nat \<Rightarrow> rat \<Rightarrow> string" where
  "numberFormat_es_AR d x = (if x < 0 then ''-'' @ format_nonneg d (- x) else format_nonneg d x)"

definition formatAmount ::
  "(string \<Rightarrow> jsnum) \<Rightarrow> CurrencyState \<Rightarrow> amount \<Rightarrow> bool \<Rightarrow> string" where
  "formatAmount pf st a showSymbol =
     (case toNumber pf a of
        NaN \<Rightarrow> ''0''
      | Fin n \<Rightarrow>
          let numericAmount =
                (if currency st = USD \<and> truthy (exchangeRate st)
                 then n / rateValue (exchangeRate st) else n);
              formatted =
                numberFormat_es_AR (if currency st = USD then 2 else 0) \<bar>numericAmount\<bar>;
              symbol = ''$'';
              currencyCode = (if currency st = USD then '' USD'' else '' ARS'')
          in if showSymbol then symbol @ formatted @ currencyCode else formatted)"

text \<open>
  An instance of \<open>parseFloat\<close> on plain decimal numerals (leading blanks, an optional
  sign, digits with an optional fraction; anything after them is ignored), for evaluating
  the service on concrete strings.
\<close>

definition digit_val :: "char \<Rightarrow> nat option" where
  "digit_val c = map_of
     [(CHR ''0'', 0), (CHR ''1'', 1), (CHR ''2'', 2), (CHR ''3'', 3), (CHR ''4'', 4),
      (CHR ''5'', 5), (CHR ''6'', 6), (CHR ''7'', 7), (CHR ''8'', 8), (CHR ''9'', 9)] c"

definition is_digit :: "char \<Rightarrow> bool" where
  "is_digit c = (digit_val c \<noteq> None)"

definition digits_value :: "string \<Rightarrow> nat" where
  "digits_value s = foldl (\<lambda>acc c. 10 * acc + (case digit_val c of None \<Rightarrow> 0 | Some v \<Rightarrow> v)) 0 s"

definition parseUnsigned :: "string \<Rightarrow> rat option" where
  "parseUnsigned s =
     (let ip = takeWhile is_digit s;
          rest = dropWhile is_digit s;
          fp = (case rest of c # cs \<Rightarrow> (if c = CHR ''.'' then takeWhile is_digit cs else [])
                | [] \<Rightarrow> [])
      in if ip = [] \<and> fp = [] then None
         else Some (of_nat (digits_value ip) + of_nat (digits_value fp) / 10 ^ length fp))"

definition parseDecimal :: "string \<Rightarrow> jsnum" where
  "parseDecimal s =
     (case dropWhile (\<lambda>c. c = CHR '' '') s of
        [] \<Rightarrow> NaN
      | c # cs \<Rightarrow>
          if c = CHR ''-'' then (case parseUnsigned cs of None \<Rightarrow> NaN | Some v \<Rightarrow> Fin (- v))
          else if c = CHR ''+'' then (case parseUnsigned cs of None \<Rightarrow> NaN | Some v \<Rightarrow> Fin v)
          else (case parseUnsigned (c # cs) of None \<Rightarrow> NaN | Some v \<Rightarrow> Fin v))"

text \<open>Two states of the service: pesos, and dollars at the fallback official rate.\<close>

definition pesos :: CurrencyState where
  "pesos = \<lparr>currency = ARS, exchangeRate = Some 1270\<rparr>"

definition dollars :: CurrencyState where
  "dollars = \<lparr>currency = USD, exchangeRate = Some 1270\<rparr>"

section \<open>Server: bearer-token middleware and per-user routes\<close>

record JWTPayload =
  userId :: string
  email :: string

text \<open>
  What the middleware and the handlers read of a request: the \<open>Authorization\<close> header,
  the \<open>:userId\<close> route parameter, the parsed \<open>limit\<close> of the query (\<open>None\<close> when
  \<open>parseInt\<close> gives \<open>NaN\<close>), and \<open>req.userId\<close>, which only the middleware writes.
\<close>

record AuthRequest =
  authorization :: "string option"
  param_userId :: string
  query_limit :: "int option"
  req_userId :: "string option"

text \<open>The message texts of the responses (Spanish and English sentences in the source).\<close>

datatype message = TokenRequired | TokenInvalid | NotAuthorized | FetchFailed

datatype 'd reply = Json 'd | Message message

record 'd Response =
  status :: nat
  body :: "'d reply"

text \<open>\<open>s.split(' ')\<close>: the pieces between single blanks, at least one piece.\<close>

fun split_blank :: "string \<Rightarrow> string list" where
  "split_blank [] = [[]]"
| "split_blank (c # cs) =
     (if c = CHR '' '' then [] # split_blank cs
      else (case split_blank cs of p # ps \<Rightarrow> (c # p) # ps | [] \<Rightarrow> [[c]]))"

text \<open>
  \<open>authHeader && authHeader.split(' ')[1]\<close>: \<open>None\<close> is \<open>undefined\<close>; an empty header
  is itself the (empty) result.
\<close>

definition bearerToken :: "string option \<Rightarrow> string option" where
  "bearerToken authHeader =
     (case authHeader of
        None \<Rightarrow> None
      | Some h \<Rightarrow>
          if h = [] then Some []
          else (case split_blank h of _ # t # _ \<Rightarrow> Some t | _ \<Rightarrow> None))"

text \<open>\<open>!token\<close>: \<open>undefined\<close> and the empty string are false.\<close>

definition no_token :: "string option \<Rightarrow> bool" where
  "no_token token = (token = None \<or> token = Some [])"

text \<open>
  The middleware either responds (\<open>Inl\<close>) or calls \<open>next()\<close> on the request (\<open>Inr\<close>).
  \<open>verifyToken\<close> wraps the JWT library, which is a parameter: \<open>None\<close> where verification
  throws.
\<close>

definition authenticateToken ::
  "(string \<Rightarrow> JWTPayload option) \<Rightarrow> AuthRequest \<Rightarrow> 'd Response + AuthRequest" where
  "authenticateToken verifyToken req =
     (let token = bearerToken (authorization req)
      in if no_token token then Inl \<lparr>status = 401, body = Message TokenRequired\<rparr>
         else (case verifyToken (the token) of
                 None \<Rightarrow> Inl \<lparr>status = 403, body = Message TokenInvalid\<rparr>
               | Some payload \<Rightarrow> Inr (req\<lparr>req_userId := Some (userId payload)\<rparr>)))"

definition optionalAuth :: "(string \<Rightarrow> JWTPayload option) \<Rightarrow> AuthRequest \<Rightarrow> AuthRequest" where
  "optionalAuth verifyToken req =
     (let token = bearerToken (authorization req)
      in if \<not> no_token token then
           (case verifyToken (the token) of
              None \<Rightarrow> req
            | Some payload \<Rightarrow> req\<lparr>req_userId := Some (userId payload)\<rparr>)
         else req)"

text \<open>\<open>parseInt(req.query.limit) || dflt\<close>.\<close>

definition limit_or :: "int option \<Rightarrow> int \<Rightarrow> int" where
  "limit_or l dflt = (case l of None \<Rightarrow> dflt | Some n \<Rightarrow> if n = 0 then dflt else n)"

text \<open>
  The storage layer is a parameter: a query for a user's rows with a limit, \<open>None\<close> where
  it throws. \<open>GET /api/notifications/:userId\<close> runs \<open>authenticateToken\<close> and then its
  handler; \<open>GET /api/transactions/:userId\<close> runs \<open>optionalAuth\<close> and then its handler.
  \<open>res.json\<close> without \<open>res.status\<close> answers 200; the handler's \<open>catch\<close> answers 500.
\<close>

definition getNotifications ::
  "(string \<Rightarrow> JWTPayload option) \<Rightarrow> (string \<Rightarrow> int \<Rightarrow> 'd option) \<Rightarrow> AuthRequest \<Rightarrow> 'd Response"
  where
  "getNotifications verifyToken getUserNotifications req0 =
     (case authenticateToken verifyToken req0 of
        Inl response \<Rightarrow> response
      | Inr req \<Rightarrow>
          let uid = param_userId req;
              limit = limit_or (query_limit req) 20
          in if req_userId req \<noteq> Some uid then \<lparr>status = 403, body = Message NotAuthorized\<rparr>
             else (case getUserNotifications uid limit of
                     None \<Rightarrow> \<lparr>status = 500, body = Message FetchFailed\<rparr>
                   | Some notifications \<Rightarrow> \<lparr>status = 200, body = Json notifications\<rparr>))"

definition getTransactions ::
  "(string \<Rightarrow> JWTPayload option) \<Rightarrow> (string \<Rightarrow> int \<Rightarrow> 'd option) \<Rightarrow> AuthRequest \<Rightarrow> 'd Response"
  where
  "getTransactions verifyToken getUserTransactions req0 =
     (let req = optionalAuth verifyToken req0;
          uid = param_userId req;
          limit = limit_or (query_limit req) 50
      in (case getUserTransactions uid limit of
            None \<Rightarrow> \<lparr>status = 500, body = Message FetchFailed\<rparr>
          | Some transactions \<Rightarrow> \<lparr>status = 200, body = Json transactions\<rparr>))"

text \<open>
  A verifier that accepts two tokens, a store that answers every query with the owner's
  name, and a request for the rows of a user with a given header.
\<close>

definition verify2 :: "string \<Rightarrow> JWTPayload option" where
  "verify2 t =
     (if t = ''tok-ana'' then Some \<lparr>userId = ''ana'', email = ''ana@example.com''\<rparr>
      else if t = ''tok-luis'' then Some \<lparr>userId = ''luis'', email = ''luis@example.com''\<rparr>
      else None)"

definition rowsOf :: "string \<Rightarrow> int \<Rightarrow> string option" where
  "rowsOf uid limit = Some (''rows of '' @ uid)"

definition request :: "string option \<Rightarrow> string \<Rightarrow> AuthRequest" where
  "request header uid =
     \<lparr>authorization = header, param_userId = uid, query_limit = None, req_userId = None\<rparr>"

section \<open>Dates\<close>

text \<open>
  A \<open>Date\<close> is its time value: milliseconds since the epoch, read in local time. The
  local time zone is taken to have a fixed offset (as Argentina's has), so local
  milliseconds differ from UTC by a constant, which comparisons and differences do not see;
  the model counts local milliseconds directly. The calendar follows the algorithms of the
  language standard: \<open>Day\<close>, \<open>TimeWithinDay\<close>, \<open>DayFromYear\<close>, \<open>YearFromTime\<close> (the
  latest year that starts on or before the day), \<open>MonthFromTime\<close>, \<open>DateFromTime\<close>,
  \<open>MakeDay\<close> (months outside 0..11 carry into the year, dates outside the month carry
  into the neighbouring months) and \<open>MakeDate\<close>.
\<close>

definition msPerDay :: int where
  "msPerDay = 86400000"

definition Day :: "int \<Rightarrow> int" where
  "Day t = t div msPerDay"

definition TimeWithinDay :: "int \<Rightarrow> int" where
  "TimeWithinDay t = t mod msPerDay"

definition DayFromYear :: "int \<Rightarrow> int" where
  "DayFromYear y = 365 * (y - 1970) + (y - 1969) div 4 - (y - 1901) div 100 + (y - 1601) div 400"

definition InLeapYear :: "int \<Rightarrow> bool" where
  "InLeapYear y = (y mod 4 = 0 \<and> (y mod 100 \<noteq> 0 \<or> y mod 400 = 0))"

lemma div_succ:
  fixes n k :: int
  assumes "0 < k"
  shows "(n + 1) div k = n div k + (if (n + 1) mod k = 0 then 1 else 0)"
proof -
  define q where "q = n div k"
  define r where "r = n mod k"
  have n: "n = k * q + r" and r: "0 \<le> r" "r < k"
    using assms by (simp_all add: q_def r_def)
  show ?thesis
  proof (cases "r + 1 = k")
    case True
    then have e: "n + 1 = k * (q + 1)"
      using n by (simp add: algebra_simps)
    have "(n + 1) div k = q + 1" "(n + 1) mod k = 0"
      unfolding e using assms by simp_all
    then show ?thesis
      by (simp add: q_def)
  next
    case False
    then have lt: "r + 1 < k"
      using r by simp
    have e: "n + 1 = k * q + (r + 1)"
      using n by simp
    have d: "(n + 1) div k = q"
      using e r lt by (intro int_div_pos_eq [where r = "r + 1"]) simp_all
    have m: "(n + 1) mod k = r + 1"
      using e r lt by (intro int_mod_pos_eq [where q = q]) simp_all
    from d m r show ?thesis
      by (simp add: q_def)
  qed
qed

lemma mod_shift:
  fixes y :: int
  shows "(y - c * k) mod c = y mod c"
proof -
  have "y - c * k = y + c * (- k)"
    by simp
  then show ?thesis
    by (simp only: mod_mult_self2)
qed

lemma DayFromYear_step:
  "DayFromYear (y + 1) = DayFromYear y + (if InLeapYear y then 366 else 365)"
proof -
  have m4: "(y - 1968) mod 4 = y mod 4"
    using mod_shift [of y 4 492] by simp
  have m100: "(y - 1900) mod 100 = y mod 100"
    using mod_shift [of y 100 19] by simp
  have m400: "(y - 1600) mod 400 = y mod 400"
    using mod_shift [of y 400 4] by simp
  have a: "(y - 1968) div 4 = (y - 1969) div 4 + (if y mod 4 = 0 then 1 else 0)"
    using div_succ [of 4 "y - 1969"] m4 by simp
  have b: "(y - 1900) div 100 = (y - 1901) div 100 + (if y mod 100 = 0 then 1 else 0)"
    using div_succ [of 100 "y - 1901"] m100 by simp
  have c: "(y - 1600) div 400 = (y - 1601) div 400 + (if y mod 400 = 0 then 1 else 0)"
    using div_succ [of 400 "y - 1601"] m400 by simp
  have d4: "y mod 4 = 0" if "y mod 100 = 0"
    using that dvd_trans [of 4 100 y] by (simp add: mod_eq_0_iff_dvd)
  have d100: "y mod 100 = 0" if "y mod 400 = 0"
    using that dvd_trans [of 100 400 y] by (simp add: mod_eq_0_iff_dvd)
  have e: "DayFromYear (y + 1) =
      365 * (y - 1969) + (y - 1968) div 4 - (y - 1900) div 100 + (y - 1600) div 400"
    by (simp add: DayFromYear_def)
  have f: "DayFromYear y =
      365 * (y - 1970) + (y - 1969) div 4 - (y - 1901) div 100 + (y - 1601) div 400"
    by (simp only: DayFromYear_def)
  show ?thesis
  proof (cases "y mod 4 = 0")
    case False
    with d4 have n100: "y mod 100 \<noteq> 0"
      by metis
    with d100 have "y mod 400 \<noteq> 0"
      by metis
    with False n100 show ?thesis
      unfolding e f a b c InLeapYear_def by simp
  next
    case y4: True
    show ?thesis
    proof (cases "y mod 100 = 0")
      case False
      with d100 have "y mod 400 \<noteq> 0"
        by metis
      with False y4 show ?thesis
        unfolding e f a b c InLeapYear_def by simp
    next
      case y100: True
      show ?thesis
      proof (cases "y mod 400 = 0")
        case True
        with y4 y100 show ?thesis
          unfolding e f a b c InLeapYear_def by simp
      next
        case False
        with y4 y100 show ?thesis
          unfolding e f a b c InLeapYear_def by simp
      qed
    qed
  qed
qed

lemma DayFromYear_pred_less: "DayFromYear (y - 1) < DayFromYear y"
proof -
  have "DayFromYear (y - 1 + 1) = DayFromYear (y - 1) + (if InLeapYear (y - 1) then 366 else 365)"
    by (rule DayFromYear_step)
  moreover have "y - 1 + 1 = y"
    by simp
  ultimately have "DayFromYear y = DayFromYear (y - 1) + (if InLeapYear (y - 1) then 366 else 365)"
    by simp
  then show ?thesis
    by (cases "InLeapYear (y - 1)") simp_all
qed

text \<open>
  The latest year starting on or before day \<open>d\<close>, searched downwards from a year that
  starts after no day of the year sought.
\<close>

function yearSearch :: "int \<Rightarrow> int \<Rightarrow> int" where
  "yearSearch d y = (if DayFromYear y \<le> d then y else yearSearch d (y - 1))"
  by pat_completeness auto
termination
proof (relation "measure (\<lambda>(d, y). nat (DayFromYear y - d))")
  show "wf (measure (\<lambda>(d, y). nat (DayFromYear y - d)))"
    by simp
next
  fix d y :: int
  assume "\<not> DayFromYear y \<le> d"
  then show "((d, y - 1), (d, y)) \<in> measure (\<lambda>(d, y). nat (DayFromYear y - d))"
    using DayFromYear_pred_less [of y] by simp
qed

declare yearSearch.simps [simp del]

definition YearFromDay :: "int \<Rightarrow> int" where
  "YearFromDay d = yearSearch d (if 0 \<le> d then 1970 + d div 365 else 1969)"

text \<open>The day within the year on which each month starts.\<close>

definition monthStarts :: "bool \<Rightarrow> int list" where
  "monthStarts leap =
     (let l = (if leap then 1 else 0)
      in [0, 31, 59 + l, 90 + l, 120 + l, 151 + l, 181 + l, 212 + l, 243 + l, 273 + l,
          304 + l, 334 + l])"

definition DayWithinYear :: "int \<Rightarrow> int" where
  "DayWithinYear d = d - DayFromYear (YearFromDay d)"

definition MonthFromDay :: "int \<Rightarrow> int" where
  "MonthFromDay d =
     int (length (filter (\<lambda>s. s \<le> DayWithinYear d) (monthStarts (InLeapYear (YearFromDay d)))))
     - 1"

definition DateFromDay :: "int \<Rightarrow> int" where
  "DateFromDay d =
     DayWithinYear d - monthStarts (InLeapYear (YearFromDay d)) ! nat (MonthFromDay d) + 1"

definition MakeDay :: "int \<Rightarrow> int \<Rightarrow> int \<Rightarrow> int" where
  "MakeDay yr mo dt =
     (let ym = yr + mo div 12; mn = mo mod 12
      in DayFromYear ym + monthStarts (InLeapYear ym) ! nat mn + dt - 1)"

definition MakeDate :: "int \<Rightarrow> int \<Rightarrow> int" where
  "MakeDate dy tm = dy * msPerDay + tm"

text \<open>The methods of \<open>Date\<close> that the components call, on time values.\<close>

definition getFullYear :: "int \<Rightarrow> int" where
  "getFullYear t = YearFromDay (Day t)"

definition getMonth :: "int \<Rightarrow> int" where
  "getMonth t = MonthFromDay (Day t)"

definition getDate :: "int \<Rightarrow> int" where
  "getDate t = DateFromDay (Day t)"

definition setDate :: "int \<Rightarrow> int \<Rightarrow> int" where
  "setDate t dt = MakeDate (MakeDay (getFullYear t) (getMonth t) dt) (TimeWithinDay t)"

definition setMonth :: "int \<Rightarrow> int \<Rightarrow> int" where
  "setMonth t mo = MakeDate (MakeDay (getFullYear t) mo (getDate t)) (TimeWithinDay t)"

definition setFullYear :: "int \<Rightarrow> int \<Rightarrow> int" where
  "setFullYear t yr = MakeDate (MakeDay yr (getMonth t) (getDate t)) (TimeWithinDay t)"

text \<open>\<open>new Date(year, month, date)\<close>: local midnight.\<close>

definition newDate :: "int \<Rightarrow> int \<Rightarrow> int \<Rightarrow> int" where
  "newDate yr mo dt = MakeDate (MakeDay yr mo dt) 0"

section \<open>Transactions\<close>

datatype transaction_type = income | expense

text \<open>
  A transaction with its amount as the number its decimal string denotes and its date as a
  time value.
\<close>

record Transaction =
  tid :: string
  amount :: rat
  ttype :: transaction_type
  categoryId :: string
  description :: string
  tdate :: int

section \<open>Cash-flow projection engine: projections from transactions\<close>

text \<open>
  \<open>generateProjectionsFromTransactions\<close> groups the transactions in a \<open>Map\<close> keyed by
  \<open>year-MM\<close> strings, kept here as an association list in insertion order.
\<close>

record MonthData =
  mdDate :: int
  mdIncome :: rat
  mdExpenses :: rat

definition showInt :: "int \<Rightarrow> string" where
  "showInt n = (if n < 0 then ''-'' @ digits (nat (- n)) else digits (nat n))"

text \<open>\<open>String(n).padStart(2, '0')\<close>.\<close>

definition padStart2 :: "string \<Rightarrow> string" where
  "padStart2 s = replicate (2 - length s) (CHR ''0'') @ s"

definition monthKey :: "int \<Rightarrow> string" where
  "monthKey t = showInt (getFullYear t) @ ''-'' @ padStart2 (showInt (getMonth t + 1))"

fun hasKey :: "string \<Rightarrow> (string \<times> 'v) list \<Rightarrow> bool" where
  "hasKey k [] = False"
| "hasKey k ((k', v) # kvs) = (k = k' \<or> hasKey k kvs)"

fun updateKey :: "string \<Rightarrow> ('v \<Rightarrow> 'v) \<Rightarrow> (string \<times> 'v) list \<Rightarrow> (string \<times> 'v) list" where
  "updateKey k f [] = []"
| "updateKey k f ((k', v) # kvs) = (if k = k' then (k', f v) # kvs else (k', v) # updateKey k f kvs)"

text \<open>The body of \<open>transactions.forEach\<close>; \<open>parseFloat(amount) || 0\<close> is the amount.\<close>

definition addTransaction :: "(string \<times> MonthData) list \<Rightarrow> Transaction \<Rightarrow> (string \<times> MonthData) list"
  where
  "addTransaction monthlyData transaction =
     (let dt = tdate transaction;
          k = monthKey dt;
          monthlyData1 =
            (if \<not> hasKey k monthlyData
             then monthlyData @ [(k, \<lparr>mdDate = newDate (getFullYear dt) (getMonth dt) 1,
                                      mdIncome = 0, mdExpenses = 0\<rparr>)]
             else monthlyData);
          amt = amount transaction
      in if ttype transaction = income
         then updateKey k (\<lambda>m. m\<lparr>mdIncome := mdIncome m + amt\<rparr>) monthlyData1
         else updateKey k (\<lambda>m. m\<lparr>mdExpenses := mdExpenses m + \<bar>amt\<bar>\<rparr>) monthlyData1)"

text \<open>The default \<open>sort()\<close> of an array of strings: by code units.\<close>

fun str_less :: "string \<Rightarrow> string \<Rightarrow> bool" where
  "str_less [] [] = False"
| "str_less [] (b # bs) = True"
| "str_less (a # as) [] = False"
| "str_less (a # as) (b # bs) =
     ((of_char a :: nat) < of_char b \<or> (a = b \<and> str_less as bs))"

fun insertKey :: "string \<times> 'v \<Rightarrow> (string \<times> 'v) list \<Rightarrow> (string \<times> 'v) list" where
  "insertKey kv [] = [kv]"
| "insertKey kv (x # xs) = (if str_less (fst x) (fst kv) then x # insertKey kv xs else kv # x # xs)"

definition sortByKey :: "(string \<times> 'v) list \<Rightarrow> (string \<times> 'v) list" where
  "sortByKey kvs = foldr insertKey kvs []"

text \<open>
  The historical entries: one per month key, in sorted order. The printed amounts are
  modelled by the numbers printed.
\<close>

definition historicalProjections :: "Transaction list \<Rightarrow> CashFlowProjection list" where
  "historicalProjections transactions =
     map (\<lambda>(k, m). \<lparr>date = mdDate m, projectedIncome = Some (mdIncome m),
                      projectedExpenses = Some (mdExpenses m),
                      netFlow = Some (mdIncome m - mdExpenses m)\<rparr>)
       (sortByKey (foldl addTransaction [] transactions))"

text \<open>
  The six future entries. Each iteration of the loop calls \<open>Math.random()\<close> once: the
  draws of one call of the function are the parameter \<open>random\<close>, \<open>random i\<close> being the
  draw of iteration \<open>i\<close>. The averages and the last date are taken once, before the loop,
  over the historical entries, whose amounts are all present.
\<close>

definition futureProjection ::
  "CashFlowProjection list \<Rightarrow> (nat \<Rightarrow> rat) \<Rightarrow> nat \<Rightarrow> CashFlowProjection" where
  "futureProjection projections random i =
     (let avgIncome = foldl (\<lambda>sum p. sum + or0 (projectedIncome p)) 0 projections
                        / of_nat (length projections);
          avgExpenses = foldl (\<lambda>sum p. sum + or0 (projectedExpenses p)) 0 projections
                        / of_nat (length projections);
          lastDate = date (last projections);
          futureDate = setMonth lastDate (getMonth lastDate + int i);
          growthFactor = 1 + (random i - 1 / 2) * (1 / 10);
          futureIncome = avgIncome * growthFactor;
          futureExpenses = avgExpenses * growthFactor
      in \<lparr>date = futureDate, projectedIncome = Some futureIncome,
          projectedExpenses = Some futureExpenses,
          netFlow = Some (futureIncome - futureExpenses)\<rparr>)"

definition generateProjectionsFromTransactions ::
  "Transaction list \<Rightarrow> (nat \<Rightarrow> rat) \<Rightarrow> CashFlowProjection list" where
  "generateProjectionsFromTransactions transactions random =
     (if length transactions = 0 then []
      else
        let projections = historicalProjections transactions
        in if length projections > 0
           then projections @ map (futureProjection projections random) [1, 2, 3, 4, 5, 6]
           else projections)"

text \<open>
  The component's pipeline: the projections it was given or, when there are none, the ones
  generated from the transactions, and the metrics over them.
\<close>

definition projectionPipeline ::
  "CashFlowProjection list \<Rightarrow> Transaction list \<Rightarrow> (nat \<Rightarrow> rat) \<Rightarrow> Scenario \<Rightarrow> rat
     \<Rightarrow> ProjectionMetrics" where
  "projectionPipeline data transactions random scenario months =
     (let effectiveData =
            (if length data > 0 then data
             else generateProjectionsFromTransactions transactions random)
      in calculateProjectionMetrics effectiveData scenario months)"

text \<open>Two transactions of one month, and two possible sequences of draws.\<close>

definition tx :: "string \<Rightarrow> rat \<Rightarrow> transaction_type \<Rightarrow> int \<Rightarrow> Transaction" where
  "tx i a ty t = \<lparr>tid = i, amount = a, ttype = ty, categoryId = ''c'', description = ''d'',
                  tdate = t\<rparr>"

definition sampleTransactions :: "Transaction list" where
  "sampleTransactions =
     [tx ''1'' 1000 income 1793620800000, tx ''2'' 400 expense 1793620800000]"

definition drawsLow :: "nat \<Rightarrow> rat" where
  "drawsLow i = 0"

definition drawsMid :: "nat \<Rightarrow> rat" where
  "drawsMid i = 1 / 2"

section \<open>Cash-flow projection engine: bucketing\<close>

subsection \<open>The real-data chart\<close>

datatype TimeRange = daily | weekly | monthly | yearly

datatype PeriodType = day | week | month | year

text \<open>
  The chart's effect computes the window from \<open>new Date()\<close>, here the parameter \<open>now\<close>,
  creates one entry of \<open>periodData\<close> per period and then adds every transaction to the
  entry of its period index. (The effect returns before all this when there are no
  transactions; a later pass fills \<open>net\<close> and orders the entries by date.)

  An entry of \<open>periodData\<close> has the fields \<open>income\<close>, \<open>expense\<close>, \<open>net\<close> and \<open>date\<close>
  of the source. The object is keyed by \<open>periodType-i\<close> for \<open>i\<close> from 0 below
  \<open>periods\<close>; it is kept here as the list of its entries by \<open>i\<close>, so the key
  \<open>periodType-i\<close> exists exactly when \<open>i\<close> is an index of the list.
\<close>

record PeriodData =
  p_income :: rat
  p_expense :: rat
  p_net :: rat
  p_date :: int

text \<open>The window: \<open>startDate\<close>, \<open>periods\<close> and \<open>periodType\<close> for a time range at \<open>now\<close>.\<close>

definition chartWindow :: "int \<Rightarrow> TimeRange \<Rightarrow> int \<times> nat \<times> PeriodType" where
  "chartWindow now timeRange =
     (case timeRange of
        daily \<Rightarrow> (setDate now (getDate now - 30), 30, day)
      | weekly \<Rightarrow> (setDate now (getDate now - 8 * 7), 8, week)
      | monthly \<Rightarrow> (setDate (setMonth now (getMonth now - 11)) 1, 12, month)
      | yearly \<Rightarrow> (setDate (setMonth (setFullYear now (getFullYear now - 4)) 0) 1, 5, year))"

definition periodStart :: "int \<Rightarrow> PeriodType \<Rightarrow> nat \<Rightarrow> int" where
  "periodStart startDate periodType i =
     (case periodType of
        day \<Rightarrow> setDate startDate (getDate startDate + int i)
      | week \<Rightarrow> setDate startDate (getDate startDate + int i * 7)
      | month \<Rightarrow> setDate (setMonth startDate (getMonth startDate + int i)) 1
      | year \<Rightarrow> setDate (setMonth (setFullYear startDate (getFullYear startDate + int i)) 0) 1)"

definition initPeriods :: "int \<Rightarrow> nat \<Rightarrow> PeriodType \<Rightarrow> PeriodData list" where
  "initPeriods startDate periods periodType =
     map (\<lambda>i. \<lparr>p_income = 0, p_expense = 0, p_net = 0, p_date = periodStart startDate periodType i\<rparr>)
       [0..<periods]"

definition periodIndex :: "PeriodType \<Rightarrow> int \<Rightarrow> int \<Rightarrow> int" where
  "periodIndex periodType startDate t =
     (case periodType of
        day \<Rightarrow> (t - startDate) div (1000 * 60 * 60 * 24)
      | week \<Rightarrow> (t - startDate) div (1000 * 60 * 60 * 24 * 7)
      | month \<Rightarrow> (getFullYear t - getFullYear startDate) * 12 + (getMonth t - getMonth startDate)
      | year \<Rightarrow> getFullYear t - getFullYear startDate)"

text \<open>The body of \<open>transactions.forEach\<close>.\<close>

definition processTransaction ::
  "int \<Rightarrow> int \<Rightarrow> nat \<Rightarrow> PeriodType \<Rightarrow> PeriodData list \<Rightarrow> Transaction \<Rightarrow> PeriodData list" where
  "processTransaction now startDate periods periodType periodData transaction =
     (let transactionDate = tdate transaction
      in if transactionDate \<ge> startDate \<and> transactionDate \<le> now then
           let idx = periodIndex periodType startDate transactionDate
           in if idx \<ge> 0 \<and> idx < int periods \<and> nat idx < length periodData then
                (if ttype transaction = income
                 then periodData[nat idx :=
                        (periodData ! nat idx)\<lparr>p_income := p_income (periodData ! nat idx)
                                                          + amount transaction\<rparr>]
                 else periodData[nat idx :=
                        (periodData ! nat idx)\<lparr>p_expense := p_expense (periodData ! nat idx)
                                                           + amount transaction\<rparr>])
              else periodData
         else periodData)"

definition bucketTransactions :: "int \<Rightarrow> TimeRange \<Rightarrow> Transaction list \<Rightarrow> PeriodData list" where
  "bucketTransactions now timeRange transactions =
     (let (startDate, periods, periodType) = chartWindow now timeRange
      in foldl (processTransaction now startDate periods periodType)
           (initPeriods startDate periods periodType) transactions)"

text \<open>The chart's own window test, and the total income of the transactions that pass it.\<close>

definition inWindow :: "int \<Rightarrow> TimeRange \<Rightarrow> Transaction \<Rightarrow> bool" where
  "inWindow now timeRange transaction =
     (fst (chartWindow now timeRange) \<le> tdate transaction \<and> tdate transaction \<le> now)"

definition incomeOf :: "Transaction list \<Rightarrow> rat" where
  "incomeOf transactions = sum_list (map amount (filter (\<lambda>t. ttype t = income) transactions))"

subsection \<open>The advanced cash-flow chart\<close>

datatype Frame = frame_weekly | frame_monthly | frame_quarterly

text \<open>
  \<open>processTransactionData\<close> walks the periods from the oldest to the newest; each period
  runs from one boundary (inclusive) to the next (exclusive), the last one ending at
  \<open>now\<close>. An entry of its result is kept without its display label.
\<close>

record PeriodAggregate =
  a_income :: rat
  a_expense :: rat
  a_netFlow :: rat
  a_date :: int

definition framePeriods :: "Frame \<Rightarrow> nat" where
  "framePeriods frame = (if frame = frame_weekly then 12 else if frame = frame_monthly then 12 else 4)"

text \<open>The boundary \<open>k\<close> periods before \<open>now\<close>: the end of period \<open>k\<close>, the start of period \<open>k - 1\<close>.\<close>

definition frameBoundary :: "int \<Rightarrow> Frame \<Rightarrow> nat \<Rightarrow> int" where
  "frameBoundary now frame k =
     (if frame = frame_weekly then setDate now (getDate now - int k * 7)
      else if frame = frame_monthly then setMonth now (getMonth now - int k)
      else setMonth now (getMonth now - int k * 3))"

definition framePeriod :: "Transaction list \<Rightarrow> Frame \<Rightarrow> int \<Rightarrow> nat \<Rightarrow> PeriodAggregate" where
  "framePeriod transactions frame now i =
     (let pStart = frameBoundary now frame (i + 1);
          pEnd = frameBoundary now frame i;
          periodTransactions = filter (\<lambda>t. tdate t \<ge> pStart \<and> tdate t < pEnd) transactions;
          periodIncome = foldl (\<lambda>sum t. sum + amount t) 0
                           (filter (\<lambda>t. ttype t = income) periodTransactions);
          periodExpense = foldl (\<lambda>sum t. sum + amount t) 0
                            (filter (\<lambda>t. ttype t = expense) periodTransactions)
      in \<lparr>a_income = periodIncome, a_expense = periodExpense,
          a_netFlow = periodIncome - periodExpense, a_date = pStart\<rparr>)"

definition processTransactionData :: "Transaction list \<Rightarrow> Frame \<Rightarrow> int \<Rightarrow> PeriodAggregate list" where
  "processTransactionData transactions frame now =
     map (framePeriod transactions frame now) (rev [0..<framePeriods frame])"

text \<open>Noon of 2 November 2026, and a sale booked at that instant.\<close>

definition noon :: int where
  "noon = 1793620800000"

definition saleAtNoon :: Transaction where
  "saleAtNoon = tx ''7'' 100 income noon"

text \<open>
  A transaction is counted by the chart when it passes the window test and its period index
  is one of the buckets.
\<close>

definition counted :: "int \<Rightarrow> int \<Rightarrow> nat \<Rightarrow> PeriodType \<Rightarrow> Transaction \<Rightarrow> bool" where
  "counted now startDate periods periodType t =
     (startDate \<le> tdate t \<and> tdate t \<le> now
      \<and> 0 \<le> periodIndex periodType startDate (tdate t)
      \<and> periodIndex periodType startDate (tdate t) < int periods)"

section \<open>Properties of the chart value scaler\<close>

lemma Math_max_eq_Max: "xs \<noteq> [] \<Longrightarrow> Math_max xs = Some (Max (set xs))"
proof (induction xs)
  case Nil
  then show ?case by simp
next
  case (Cons x xs)
  show ?case
  proof (cases "xs = []")
    case True
    then show ?thesis by simp
  next
    case False
    with Cons.IH have "Math_max xs = Some (Max (set xs))" by simp
    with False show ?thesis by simp
  qed
qed

lemma ge_bound_Math_max:
  "ge_bound (Math_max xs) c \<longleftrightarrow> xs \<noteq> [] \<and> c \<le> Max (set xs)"
  by (cases "xs = []") (simp_all add: Math_max_eq_Max)

text \<open>
  C8. \<open>determineScale\<close> returns \<open>millions\<close> exactly when the largest absolute value of
  the list is at least 1,000,000, \<open>thousands\<close> exactly when it is at least 1,000 and
  below 1,000,000, and \<open>units\<close> in every other case; the empty list gives \<open>units\<close>.
\<close>

theorem determineScale_by_max_abs:
  "(determineScale vs = millions \<longleftrightarrow> vs \<noteq> [] \<and> 1000000 \<le> Max (set (map abs vs)))
   \<and> (determineScale vs = thousands \<longleftrightarrow>
        vs \<noteq> [] \<and> 1000 \<le> Max (set (map abs vs)) \<and> Max (set (map abs vs)) < 1000000)
   \<and> (determineScale vs = units \<longleftrightarrow>
        \<not> (vs \<noteq> [] \<and> 1000 \<le> Max (set (map abs vs))))
   \<and> determineScale [] = units"
proof -
  define M where "M = Max (set (map abs vs))"
  have m: "ge_bound (Math_max (map abs vs)) c \<longleftrightarrow> vs \<noteq> [] \<and> c \<le> M" for c
    unfolding M_def using ge_bound_Math_max [of "map abs vs" c] by simp
  have e: "determineScale [] = units"
    by (simp add: determineScale_def)
  have "(determineScale vs = millions \<longleftrightarrow> vs \<noteq> [] \<and> 1000000 \<le> M)
     \<and> (determineScale vs = thousands \<longleftrightarrow> vs \<noteq> [] \<and> 1000 \<le> M \<and> M < 1000000)
     \<and> (determineScale vs = units \<longleftrightarrow> \<not> (vs \<noteq> [] \<and> 1000 \<le> M))"
    unfolding determineScale_def Let_def m by auto
  with e show ?thesis
    unfolding M_def by blast
qed

theorem determineScale_by_max_abs_witness:
  "determineScale [250, -1500000, 3000] = millions
   \<and> determineScale [250, -1500, 999] = thousands
   \<and> determineScale [250, -999] = units
   \<and> determineScale [] = units"
  using determineScale_by_max_abs [of "[250, -1500000, 3000]"]
    determineScale_by_max_abs [of "[250, -1500, 999]"]
    determineScale_by_max_abs [of "[250, -999]"]
  by simp

section \<open>Properties of trend detection\<close>

lemma every_three:
  "every p [a, b, c] \<longleftrightarrow> p a 0 [a, b, c] \<and> p b 1 [a, b, c] \<and> p c 2 [a, b, c]"
proof -
  have "[0..<length [a, b, c]] = [0, Suc 0, Suc (Suc 0)]"
    by (simp add: upt_rec)
  then show ?thesis
    by (simp add: every_def numeral_2_eq_2)
qed

lemma length_three_conv: "length ys = 3 \<Longrightarrow> \<exists>a b c. ys = [a, b, c]"
  by (auto simp: length_Suc_conv numeral_3_eq_3)

lemma slice_last3_three:
  assumes "3 \<le> length xs"
  shows "slice_last3 xs = [xs ! (length xs - 3), xs ! (length xs - 2), xs ! (length xs - 1)]"
proof -
  define k where "k = length xs - 3"
  have len: "length xs = k + 3"
    using assms by (simp add: k_def)
  have "length (drop k xs) = 3"
    using len by simp
  then obtain a b c where abc: "drop k xs = [a, b, c]"
    using length_three_conv by blast
  have "a = drop k xs ! 0" "b = drop k xs ! 1" "c = drop k xs ! 2"
    by (simp_all add: abc)
  then have "a = xs ! k" "b = xs ! (k + 1)" "c = xs ! (k + 2)"
    using len by simp_all
  moreover have "length xs - 2 = k + 1" "length xs - 1 = k + 2"
    using len by simp_all
  ultimately show ?thesis
    using abc by (simp add: slice_last3_def k_def [symmetric])
qed

lemma jlt_asym: "jlt a b \<Longrightarrow> \<not> jlt b a"
  by (cases a; cases b) auto

text \<open>
  C9. On a series of at least three entries the trend rule emits a \<open>high\<close>-priority
  \<open>alert\<close> exactly when the net flows of the last three buckets are strictly decreasing,
  and a \<open>medium\<close>-priority \<open>opportunity\<close> exactly when they are strictly increasing; on a
  shorter series it emits nothing. (An absent net flow parses to \<open>NaN\<close>, which is neither
  below nor above any number.)
\<close>

theorem detectCashFlowTrends_last_three:
  "(length ds < 3 \<longrightarrow> detectCashFlowTrends ds = [])
   \<and> (3 \<le> length ds \<longrightarrow>
        ((\<exists>i \<in> set (detectCashFlowTrends ds). insight_type i = alert \<and> priority i = high)
           \<longleftrightarrow> jlt (parseField (netFlow (ds ! (length ds - 2))))
                    (parseField (netFlow (ds ! (length ds - 3))))
               \<and> jlt (parseField (netFlow (ds ! (length ds - 1))))
                    (parseField (netFlow (ds ! (length ds - 2)))))
        \<and> ((\<exists>i \<in> set (detectCashFlowTrends ds). insight_type i = opportunity \<and> priority i = medium)
           \<longleftrightarrow> jlt (parseField (netFlow (ds ! (length ds - 3))))
                    (parseField (netFlow (ds ! (length ds - 2))))
               \<and> jlt (parseField (netFlow (ds ! (length ds - 2))))
                    (parseField (netFlow (ds ! (length ds - 1))))))"
proof (cases "length ds < 3")
  case True
  then show ?thesis
    by (simp add: detectCashFlowTrends_def)
next
  case False
  define nf where "nf = map (\<lambda>d. parseField (netFlow d)) ds"
  define a where "a = parseField (netFlow (ds ! (length ds - 3)))"
  define b where "b = parseField (netFlow (ds ! (length ds - 2)))"
  define c where "c = parseField (netFlow (ds ! (length ds - 1)))"
  from False have len: "3 \<le> length nf"
    by (simp add: nf_def)
  have sl: "slice_last3 nf = [a, b, c]"
    using slice_last3_three [OF len] False
    by (simp add: nf_def a_def b_def c_def)
  have dec: "every (\<lambda>v index arr. index = 0 \<or> jlt v (arr ! (index - 1))) (slice_last3 nf)
      \<longleftrightarrow> jlt b a \<and> jlt c b"
    by (simp add: sl every_three)
  have inc: "every (\<lambda>v index arr. index = 0 \<or> jgt v (arr ! (index - 1))) (slice_last3 nf)
      \<longleftrightarrow> jlt a b \<and> jlt b c"
    by (simp add: sl every_three jgt_def)
  have excl: "\<not> (jlt b a \<and> jlt a b)"
    using jlt_asym by blast
  have "((\<exists>i \<in> set (detectCashFlowTrends ds). insight_type i = alert \<and> priority i = high)
           \<longleftrightarrow> jlt b a \<and> jlt c b)
        \<and> ((\<exists>i \<in> set (detectCashFlowTrends ds). insight_type i = opportunity \<and> priority i = medium)
           \<longleftrightarrow> jlt a b \<and> jlt b c)"
    using False excl
    unfolding detectCashFlowTrends_def Let_def nf_def [symmetric] dec inc
    by auto
  with False show ?thesis
    unfolding a_def b_def c_def by simp
qed

theorem detectCashFlowTrends_last_three_witness:
  "detectCashFlowTrends (flows [5, 4]) = []
   \<and> (\<exists>i \<in> set (detectCashFlowTrends (flows [1, 9, 7, 4])).
         insight_type i = alert \<and> priority i = high)
   \<and> (\<exists>i \<in> set (detectCashFlowTrends (flows [8, 2, 3, 6])).
         insight_type i = opportunity \<and> priority i = medium)
   \<and> detectCashFlowTrends (flows [1, 4, 4]) = []"
proof -
  have "detectCashFlowTrends (flows [1, 4, 4]) = []"
    by (simp add: detectCashFlowTrends_def flows_def every_def slice_last3_def parseField_def
        jgt_def upt_rec)
  then show ?thesis
    using detectCashFlowTrends_last_three [of "flows [5, 4]"]
      detectCashFlowTrends_last_three [of "flows [1, 9, 7, 4]"]
      detectCashFlowTrends_last_three [of "flows [8, 2, 3, 6]"]
    by (simp add: flows_def parseField_def)
qed

section \<open>Properties of the projection metrics\<close>

lemma foldl_plus_sum_list:
  "foldl (\<lambda>sum item. sum + g item) a xs = a + sum_list (map g xs)"
  for a :: rat
  by (induction xs arbitrary: a) (simp_all add: add.assoc)

lemma reduceAvg_mean: "reduceAvg field data = mean (map (\<lambda>item. or0 (field item)) data)"
  by (simp add: reduceAvg_def mean_def foldl_plus_sum_list)

lemma historicalAverages_present:
  assumes "data \<noteq> []" and "projectedIncome (hd data) \<noteq> None"
  shows "historicalAverages data =
    (mean (map (\<lambda>item. or0 (projectedIncome item)) data),
     mean (map (\<lambda>item. or0 (projectedExpenses item)) data))"
  using assms by (cases data) (simp_all add: historicalAverages_def reduceAvg_mean)

lemma historicalAverages_absent:
  assumes "data \<noteq> []" and "projectedIncome (hd data) = None"
  shows "historicalAverages data =
    (let a = mean (map (\<lambda>item. or0 (netFlow item)) data)
     in (\<bar>a\<bar> * (if a < 0 then 7 / 10 else 17 / 10),
         \<bar>a\<bar> * (if a < 0 then 17 / 10 else 7 / 10)))"
  using assms by (cases data) (simp_all add: historicalAverages_def reduceAvg_mean Let_def)

text \<open>
  C1. On a non-empty series \<open>calculateProjectionMetrics\<close> returns as net projected flow
  the projected monthly income times the months plus the one-time income, minus the
  projected monthly expenses times the months plus the one-time expense; as worst case the
  net flow minus the band of 20% of the absolute monthly net flow times the months, and as
  best case the net flow plus that band. The average historical income is the mean of the
  entries' incomes when the first entry carries one, and the estimate from the mean net flow
  otherwise. On these numbers the risk level is decided in this order: \<open>high\<close> exactly
  when the worst case is negative and the net projected flow is below twice the average
  historical income; otherwise \<open>low\<close> when the net projected flow is above six times that
  average; otherwise \<open>medium\<close>. The two conditions exclude each other when the average
  income is not negative, so there \<open>low\<close> is returned exactly when the net flow is above
  six times the average. A worst case of exactly 0 with a net flow of at least twice the
  average income is not classified \<open>high\<close>.
\<close>

theorem riskLevel_classification:
  assumes "data \<noteq> []"
  shows "let m = calculateProjectionMetrics data scenario months;
             (avgIncome, avgExpenses) = historicalAverages data;
             monthlyIncome = avgIncome * (1 + incomeGrowth scenario / 100)
                               * (1 + or0 (marketGrowth scenario) / 100);
             monthlyExpenses = avgExpenses * (1 - expenseReduction scenario / 100)
                               * (1 + or0 (inflationRate scenario) / 100 / 12);
             net = (monthlyIncome * months + oneTimeIncome scenario)
                     - (monthlyExpenses * months + oneTimeExpense scenario);
             band = \<bar>(monthlyIncome - monthlyExpenses) * (2 / 10)\<bar> * months
         in (projectedIncome (hd data) \<noteq> None \<longrightarrow>
               avgIncome = mean (map (\<lambda>item. or0 (projectedIncome item)) data)
               \<and> avgExpenses = mean (map (\<lambda>item. or0 (projectedExpenses item)) data))
          \<and> (projectedIncome (hd data) = None \<longrightarrow>
               (let a = mean (map (\<lambda>item. or0 (netFlow item)) data)
                in avgIncome = \<bar>a\<bar> * (if a < 0 then 7 / 10 else 17 / 10)
                 \<and> avgExpenses = \<bar>a\<bar> * (if a < 0 then 17 / 10 else 7 / 10)))
          \<and> netProjectedFlow m = net
          \<and> worstCaseScenario m = net - band
          \<and> bestCaseScenario m = net + band
          \<and> (riskLevel m = high \<longleftrightarrow>
               worstCaseScenario m < 0 \<and> netProjectedFlow m < 2 * avgIncome)
          \<and> (riskLevel m = low \<longleftrightarrow>
               \<not> (worstCaseScenario m < 0 \<and> netProjectedFlow m < 2 * avgIncome)
               \<and> netProjectedFlow m > 6 * avgIncome)
          \<and> (riskLevel m = medium \<longleftrightarrow>
               \<not> (worstCaseScenario m < 0 \<and> netProjectedFlow m < 2 * avgIncome)
               \<and> \<not> netProjectedFlow m > 6 * avgIncome)
          \<and> (0 \<le> avgIncome \<longrightarrow>
               (riskLevel m = low \<longleftrightarrow> netProjectedFlow m > 6 * avgIncome))
          \<and> (worstCaseScenario m = 0 \<and> netProjectedFlow m \<ge> 2 * avgIncome \<longrightarrow>
               riskLevel m \<noteq> high)"
proof -
  obtain avgIncome avgExpenses where h: "historicalAverages data = (avgIncome, avgExpenses)"
    by (cases "historicalAverages data")
  define m where "m = calculateProjectionMetrics data scenario months"
  define monthlyIncome where "monthlyIncome = avgIncome * (1 + incomeGrowth scenario / 100)
                               * (1 + or0 (marketGrowth scenario) / 100)"
  define monthlyExpenses where "monthlyExpenses = avgExpenses * (1 - expenseReduction scenario / 100)
                               * (1 + or0 (inflationRate scenario) / 100 / 12)"
  define net where "net = (monthlyIncome * months + oneTimeIncome scenario)
                     - (monthlyExpenses * months + oneTimeExpense scenario)"
  define band where "band = \<bar>(monthlyIncome - monthlyExpenses) * (2 / 10)\<bar> * months"
  have p: "projectedMonthly data scenario = (monthlyIncome, monthlyExpenses)"
    by (simp add: projectedMonthly_def h monthlyIncome_def monthlyExpenses_def)
  have present: "projectedIncome (hd data) \<noteq> None \<longrightarrow>
      avgIncome = mean (map (\<lambda>item. or0 (projectedIncome item)) data)
      \<and> avgExpenses = mean (map (\<lambda>item. or0 (projectedExpenses item)) data)"
    using historicalAverages_present [OF assms] h by simp
  have absent: "projectedIncome (hd data) = None \<longrightarrow>
      (let a = mean (map (\<lambda>item. or0 (netFlow item)) data)
       in avgIncome = \<bar>a\<bar> * (if a < 0 then 7 / 10 else 17 / 10)
        \<and> avgExpenses = \<bar>a\<bar> * (if a < 0 then 17 / 10 else 7 / 10))"
    using historicalAverages_absent [OF assms] h by (simp add: Let_def)
  have fields: "netProjectedFlow m = net" "worstCaseScenario m = net - band"
      "bestCaseScenario m = net + band"
    using assms
    by (simp_all add: m_def calculateProjectionMetrics_def h p Let_def net_def band_def)
  have risk: "riskLevel m = (if worstCaseScenario m < 0 \<and> netProjectedFlow m < 2 * avgIncome
       then high else if netProjectedFlow m > 6 * avgIncome then low else medium)"
    using assms
    by (simp add: m_def calculateProjectionMetrics_def h p Let_def mult.commute)
  have r1: "riskLevel m = high \<longleftrightarrow>
               worstCaseScenario m < 0 \<and> netProjectedFlow m < 2 * avgIncome"
    and r2: "riskLevel m = low \<longleftrightarrow>
               \<not> (worstCaseScenario m < 0 \<and> netProjectedFlow m < 2 * avgIncome)
               \<and> netProjectedFlow m > 6 * avgIncome"
    and r3: "riskLevel m = medium \<longleftrightarrow>
               \<not> (worstCaseScenario m < 0 \<and> netProjectedFlow m < 2 * avgIncome)
               \<and> \<not> netProjectedFlow m > 6 * avgIncome"
    by (simp_all add: risk)
  have r4: "0 \<le> avgIncome \<longrightarrow> (riskLevel m = low \<longleftrightarrow> netProjectedFlow m > 6 * avgIncome)"
    unfolding r2 by auto
  have r5: "worstCaseScenario m = 0 \<and> netProjectedFlow m \<ge> 2 * avgIncome \<longrightarrow>
               riskLevel m \<noteq> high"
    unfolding r1 by auto
  from present absent fields r1 r2 r3 r4 r5 show ?thesis
    unfolding h Let_def split_conv
    unfolding m_def [symmetric] monthlyIncome_def [symmetric] monthlyExpenses_def [symmetric] 
    unfolding net_def [symmetric] band_def [symmetric]
    by (intro conjI)
qed

theorem riskLevel_classification_witness:
  "series [(100, 500)] \<noteq> []
   \<and> netProjectedFlow (calculateProjectionMetrics (series [(100, 500)]) (scen 0 0 0 0 0 0) 6) = - 2400
   \<and> worstCaseScenario (calculateProjectionMetrics (series [(100, 500)]) (scen 0 0 0 0 0 0) 6) = - 2880
   \<and> riskLevel (calculateProjectionMetrics (series [(100, 500)]) (scen 0 0 0 0 0 0) 6) = high
   \<and> netProjectedFlow (calculateProjectionMetrics (series [(100, 10)]) (scen 0 0 0 0 0 0) 12) = 1080
   \<and> worstCaseScenario (calculateProjectionMetrics (series [(100, 10)]) (scen 0 0 0 0 0 0) 12) = 864
   \<and> riskLevel (calculateProjectionMetrics (series [(100, 10)]) (scen 0 0 0 0 0 0) 12) = low
   \<and> netProjectedFlow (calculateProjectionMetrics (series [(1, 11)]) (scen 0 0 12 0 0 0) 1) = 2
   \<and> worstCaseScenario (calculateProjectionMetrics (series [(1, 11)]) (scen 0 0 12 0 0 0) 1) = 0
   \<and> riskLevel (calculateProjectionMetrics (series [(1, 11)]) (scen 0 0 12 0 0 0) 1) = medium
   \<and> netProjectedFlow (calculateProjectionMetrics (series [(0, 10)]) (scen 0 0 11 0 0 0) 1) = 1
   \<and> worstCaseScenario (calculateProjectionMetrics (series [(0, 10)]) (scen 0 0 11 0 0 0) 1) = - 1
   \<and> riskLevel (calculateProjectionMetrics (series [(0, 10)]) (scen 0 0 11 0 0 0) 1) = low
   \<and> projectedIncome (hd (netOnly [- 100])) = None
   \<and> historicalAverages (netOnly [- 100]) = (70, 170)
   \<and> worstCaseScenario (calculateProjectionMetrics (netOnly [- 100]) (scen 0 0 0 0 0 0) 6) = - 720
   \<and> riskLevel (calculateProjectionMetrics (netOnly [- 100]) (scen 0 0 0 0 0 0) 6) = high"
proof -
  have ne: "series [(100, 500)] \<noteq> []" "series [(100, 10)] \<noteq> []" "series [(1, 11)] \<noteq> []"
      "series [(0, 10)] \<noteq> []" "netOnly [- 100] \<noteq> []"
    by (simp_all add: series_def netOnly_def)
  have av: "historicalAverages (series [(100, 500)]) = (100, 500)"
      "historicalAverages (series [(100, 10)]) = (100, 10)"
      "historicalAverages (series [(1, 11)]) = (1, 11)"
      "historicalAverages (series [(0, 10)]) = (0, 10)"
    by (simp_all add: historicalAverages_def series_def reduceAvg_def or0_def)
  have hd: "projectedIncome (hd (netOnly [- 100])) = None"
      "mean (map (\<lambda>item. or0 (netFlow item)) (netOnly [- 100])) = - 100"
    by (simp_all add: netOnly_def mean_def or0_def)
  note A = riskLevel_classification [OF ne(1), of "scen 0 0 0 0 0 0" 6,
      unfolded av Let_def split_conv]
  note B = riskLevel_classification [OF ne(2), of "scen 0 0 0 0 0 0" 12,
      unfolded av Let_def split_conv]
  note C = riskLevel_classification [OF ne(3), of "scen 0 0 12 0 0 0" 1,
      unfolded av Let_def split_conv]
  note D = riskLevel_classification [OF ne(4), of "scen 0 0 11 0 0 0" 1,
      unfolded av Let_def split_conv]
  note E = riskLevel_classification [OF ne(5), of "scen 0 0 0 0 0 0" 6]
  have s: "incomeGrowth (scen ig er oi oe mg ir) = ig"
      "expenseReduction (scen ig er oi oe mg ir) = er"
      "oneTimeIncome (scen ig er oi oe mg ir) = oi"
      "oneTimeExpense (scen ig er oi oe mg ir) = oe"
      "or0 (marketGrowth (scen ig er oi oe mg ir)) = mg"
      "or0 (inflationRate (scen ig er oi oe mg ir)) = ir" for ig er oi oe mg ir
    by (simp_all add: scen_def or0_def)
  have a: "netProjectedFlow (calculateProjectionMetrics (series [(100, 500)]) (scen 0 0 0 0 0 0) 6) = - 2400"
      "worstCaseScenario (calculateProjectionMetrics (series [(100, 500)]) (scen 0 0 0 0 0 0) 6) = - 2880"
    using A by (simp_all add: s)
  have a3: "riskLevel (calculateProjectionMetrics (series [(100, 500)]) (scen 0 0 0 0 0 0) 6) = high"
    using A by (simp add: a)
  have b: "netProjectedFlow (calculateProjectionMetrics (series [(100, 10)]) (scen 0 0 0 0 0 0) 12) = 1080"
      "worstCaseScenario (calculateProjectionMetrics (series [(100, 10)]) (scen 0 0 0 0 0 0) 12) = 864"
    using B by (simp_all add: s)
  have b3: "riskLevel (calculateProjectionMetrics (series [(100, 10)]) (scen 0 0 0 0 0 0) 12) = low"
    using B by (simp add: b)
  have c: "netProjectedFlow (calculateProjectionMetrics (series [(1, 11)]) (scen 0 0 12 0 0 0) 1) = 2"
      "worstCaseScenario (calculateProjectionMetrics (series [(1, 11)]) (scen 0 0 12 0 0 0) 1) = 0"
    using C by (simp_all add: s)
  have c3: "riskLevel (calculateProjectionMetrics (series [(1, 11)]) (scen 0 0 12 0 0 0) 1) = medium"
    using C by (simp add: c)
  have d: "netProjectedFlow (calculateProjectionMetrics (series [(0, 10)]) (scen 0 0 11 0 0 0) 1) = 1"
      "worstCaseScenario (calculateProjectionMetrics (series [(0, 10)]) (scen 0 0 11 0 0 0) 1) = - 1"
    using D by (simp_all add: s)
  have d3: "riskLevel (calculateProjectionMetrics (series [(0, 10)]) (scen 0 0 11 0 0 0) 1) = low"
    using D by (simp add: d)
  obtain i e where ie: "historicalAverages (netOnly [- 100]) = (i, e)"
    by (cases "historicalAverages (netOnly [- 100])")
  note E' = E [unfolded ie Let_def split_conv hd]
  from E' hd(1) have e0: "i = 70" "e = 170"
    by simp_all
  have e: "netProjectedFlow (calculateProjectionMetrics (netOnly [- 100]) (scen 0 0 0 0 0 0) 6) = - 600"
      "worstCaseScenario (calculateProjectionMetrics (netOnly [- 100]) (scen 0 0 0 0 0 0) 6) = - 720"
    using E' by (simp_all add: s e0)
  have e3: "riskLevel (calculateProjectionMetrics (netOnly [- 100]) (scen 0 0 0 0 0 0) 6) = high"
    using E' by (simp add: e e0)
  from ne(1) a a3 b b3 c c3 d d3 hd(1) ie [unfolded e0] e(2) e3 show ?thesis
    by (intro conjI)
qed

lemma japp_japp: "japp g (japp f x) = japp (\<lambda>v. g (f v)) x"
  by (cases x) simp_all

lemma japp_ident: "japp (\<lambda>v. v) x = x"
  by (cases x) simp_all

lemma calculateModifiedData_length:
  "length (calculateModifiedData data scenario) = length data"
  by (simp add: calculateModifiedData_def)

lemma calculateModifiedData_nth:
  assumes "i < length data"
  shows "modifiedIncome (calculateModifiedData data scenario ! i) =
           japp (\<lambda>v. v * (1 + incomeGrowth scenario / 100)
                      + (if i = 0 then oneTimeIncome scenario else 0))
             (parseField (projectedIncome (data ! i)))"
    and "modifiedExpenses (calculateModifiedData data scenario ! i) =
           japp (\<lambda>v. v * (1 - expenseReduction scenario / 100)
                      + (if i = 0 then oneTimeExpense scenario else 0))
             (parseField (projectedExpenses (data ! i)))"
  using assms by (simp_all add: calculateModifiedData_def Let_def japp_japp)

text \<open>
  C4. On a non-empty series the projected monthly income is the historical average income
  times \<open>1 + incomeGrowth/100\<close> times \<open>1 + marketGrowth/100\<close>, and the projected
  monthly expenses are the historical average expenses times \<open>1 - expenseReduction/100\<close>
  times \<open>1 + inflationRate/100/12\<close>; the averages are the arithmetic means of the
  entries' amounts whenever the first entry carries an income. The totals add each
  one-time amount once, and the per-bucket modification adds it to the first bucket only.
  Hence the scenario with all four rates 0 and no one-time amount reproduces the historical
  averages and leaves every bucket's income and expenses as they were.
\<close>

theorem scenario_application:
  assumes "data \<noteq> []"
  shows "let (avgIncome, avgExpenses) = historicalAverages data;
             (monthlyIncome, monthlyExpenses) = projectedMonthly data scenario;
             m = calculateProjectionMetrics data scenario months;
             md = calculateModifiedData data scenario
         in (projectedIncome (hd data) \<noteq> None \<longrightarrow>
               avgIncome = mean (map (\<lambda>item. or0 (projectedIncome item)) data)
               \<and> avgExpenses = mean (map (\<lambda>item. or0 (projectedExpenses item)) data))
          \<and> monthlyIncome = avgIncome * (1 + incomeGrowth scenario / 100)
                               * (1 + or0 (marketGrowth scenario) / 100)
          \<and> monthlyExpenses = avgExpenses * (1 - expenseReduction scenario / 100)
                               * (1 + or0 (inflationRate scenario) / 100 / 12)
          \<and> averageMonthlyFlow m = monthlyIncome - monthlyExpenses
          \<and> totalProjectedIncome m = monthlyIncome * months + oneTimeIncome scenario
          \<and> totalProjectedExpenses m = monthlyExpenses * months + oneTimeExpense scenario
          \<and> length md = length data
          \<and> (\<forall>i < length data.
                modifiedIncome (md ! i) =
                  japp (\<lambda>v. v * (1 + incomeGrowth scenario / 100)
                             + (if i = 0 then oneTimeIncome scenario else 0))
                    (parseField (projectedIncome (data ! i)))
                \<and> modifiedExpenses (md ! i) =
                  japp (\<lambda>v. v * (1 - expenseReduction scenario / 100)
                             + (if i = 0 then oneTimeExpense scenario else 0))
                    (parseField (projectedExpenses (data ! i))))
          \<and> (incomeGrowth scenario = 0 \<and> expenseReduction scenario = 0
               \<and> or0 (marketGrowth scenario) = 0 \<and> or0 (inflationRate scenario) = 0
               \<and> oneTimeIncome scenario = 0 \<and> oneTimeExpense scenario = 0 \<longrightarrow>
                 monthlyIncome = avgIncome \<and> monthlyExpenses = avgExpenses
                 \<and> totalProjectedIncome m = avgIncome * months
                 \<and> totalProjectedExpenses m = avgExpenses * months
                 \<and> (\<forall>i < length data.
                       modifiedIncome (md ! i) = parseField (projectedIncome (data ! i))
                       \<and> modifiedExpenses (md ! i) = parseField (projectedExpenses (data ! i))))"
proof -
  obtain avgIncome avgExpenses where h: "historicalAverages data = (avgIncome, avgExpenses)"
    by (cases "historicalAverages data")
  obtain monthlyIncome monthlyExpenses
    where p: "projectedMonthly data scenario = (monthlyIncome, monthlyExpenses)"
    by (cases "projectedMonthly data scenario")
  have means: "projectedIncome (hd data) \<noteq> None \<Longrightarrow>
      avgIncome = mean (map (\<lambda>item. or0 (projectedIncome item)) data)
      \<and> avgExpenses = mean (map (\<lambda>item. or0 (projectedExpenses item)) data)"
    using historicalAverages_present [OF assms] h by simp
  have mi: "monthlyIncome = avgIncome * (1 + incomeGrowth scenario / 100)
                               * (1 + or0 (marketGrowth scenario) / 100)"
    and me: "monthlyExpenses = avgExpenses * (1 - expenseReduction scenario / 100)
                               * (1 + or0 (inflationRate scenario) / 100 / 12)"
    using p by (simp_all add: projectedMonthly_def h)
  have tot: "averageMonthlyFlow (calculateProjectionMetrics data scenario months)
        = monthlyIncome - monthlyExpenses"
      "totalProjectedIncome (calculateProjectionMetrics data scenario months)
        = monthlyIncome * months + oneTimeIncome scenario"
      "totalProjectedExpenses (calculateProjectionMetrics data scenario months)
        = monthlyExpenses * months + oneTimeExpense scenario"
    using assms by (simp_all add: calculateProjectionMetrics_def h p Let_def)
  have buckets: "\<forall>i < length data.
      modifiedIncome (calculateModifiedData data scenario ! i) =
        japp (\<lambda>v. v * (1 + incomeGrowth scenario / 100)
                   + (if i = 0 then oneTimeIncome scenario else 0))
          (parseField (projectedIncome (data ! i)))
      \<and> modifiedExpenses (calculateModifiedData data scenario ! i) =
        japp (\<lambda>v. v * (1 - expenseReduction scenario / 100)
                   + (if i = 0 then oneTimeExpense scenario else 0))
          (parseField (projectedExpenses (data ! i)))"
    using calculateModifiedData_nth by blast
  have zero: "monthlyIncome = avgIncome \<and> monthlyExpenses = avgExpenses
      \<and> totalProjectedIncome (calculateProjectionMetrics data scenario months) = avgIncome * months
      \<and> totalProjectedExpenses (calculateProjectionMetrics data scenario months)
          = avgExpenses * months
      \<and> (\<forall>i < length data.
            modifiedIncome (calculateModifiedData data scenario ! i)
              = parseField (projectedIncome (data ! i))
            \<and> modifiedExpenses (calculateModifiedData data scenario ! i)
              = parseField (projectedExpenses (data ! i)))"
    if z: "incomeGrowth scenario = 0 \<and> expenseReduction scenario = 0
           \<and> or0 (marketGrowth scenario) = 0 \<and> or0 (inflationRate scenario) = 0
           \<and> oneTimeIncome scenario = 0 \<and> oneTimeExpense scenario = 0"
    using z mi me tot buckets by (simp add: japp_ident)
  show ?thesis
    unfolding h p Let_def split_conv
    using means mi me tot buckets zero calculateModifiedData_length [of data scenario]
    by blast
qed

theorem scenario_application_witness:
  "series [(1000, 400), (2000, 600)] \<noteq> []
   \<and> projectedMonthly (series [(1000, 400), (2000, 600)]) (scen 10 20 700 90 0 12) = (1650, 404)
   \<and> totalProjectedIncome
       (calculateProjectionMetrics (series [(1000, 400), (2000, 600)]) (scen 10 20 700 90 0 12) 3)
       = 5650
   \<and> modifiedIncome (calculateModifiedData (series [(1000, 400), (2000, 600)])
        (scen 10 20 700 90 0 12) ! 0) = Fin 1800
   \<and> modifiedIncome (calculateModifiedData (series [(1000, 400), (2000, 600)])
        (scen 10 20 700 90 0 12) ! 1) = Fin 2200
   \<and> projectedMonthly (series [(1000, 400), (2000, 600)]) (scen 0 0 0 0 0 0) = (1500, 500)"
proof -
  let ?d = "series [(1000, 400), (2000, 600)]"
  have ne: "?d \<noteq> []"
    by (simp add: series_def)
  have hd: "projectedIncome (hd ?d) \<noteq> None"
    by (simp add: series_def)
  have av: "historicalAverages ?d = (1500, 500)"
    by (simp add: historicalAverages_def series_def reduceAvg_def or0_def)
  have d0: "parseField (projectedIncome (?d ! 0)) = Fin 1000"
    and d1: "parseField (projectedIncome (?d ! 1)) = Fin 2000"
    and len: "length ?d = 2"
    by (simp_all add: series_def parseField_def)
  have s: "incomeGrowth (scen 10 20 700 90 0 12) = 10"
    "expenseReduction (scen 10 20 700 90 0 12) = 20"
    "oneTimeIncome (scen 10 20 700 90 0 12) = 700"
    "oneTimeExpense (scen 10 20 700 90 0 12) = 90"
    "or0 (marketGrowth (scen 10 20 700 90 0 12)) = 0"
    "or0 (inflationRate (scen 10 20 700 90 0 12)) = 12"
    by (simp_all add: scen_def or0_def)
  have z: "incomeGrowth (scen 0 0 0 0 0 0) = 0"
    "expenseReduction (scen 0 0 0 0 0 0) = 0"
    "oneTimeIncome (scen 0 0 0 0 0 0) = 0"
    "oneTimeExpense (scen 0 0 0 0 0 0) = 0"
    "or0 (marketGrowth (scen 0 0 0 0 0 0)) = 0"
    "or0 (inflationRate (scen 0 0 0 0 0 0)) = 0"
    by (simp_all add: scen_def or0_def)
  obtain a b where p1: "projectedMonthly ?d (scen 10 20 700 90 0 12) = (a, b)"
    by (cases "projectedMonthly ?d (scen 10 20 700 90 0 12)")
  obtain a0 b0 where p0: "projectedMonthly ?d (scen 0 0 0 0 0 0) = (a0, b0)"
    by (cases "projectedMonthly ?d (scen 0 0 0 0 0 0)")
  have t1: "a = 1650 \<and> b = 404
      \<and> totalProjectedIncome (calculateProjectionMetrics ?d (scen 10 20 700 90 0 12) 3) = 5650
      \<and> modifiedIncome (calculateModifiedData ?d (scen 10 20 700 90 0 12) ! 0) = Fin 1800
      \<and> modifiedIncome (calculateModifiedData ?d (scen 10 20 700 90 0 12) ! 1) = Fin 2200"
    using scenario_application [OF ne, of "scen 10 20 700 90 0 12" 3] d0 d1
    by (simp add: Let_def av p1 s len hd)
  have t0: "a0 = 1500 \<and> b0 = 500"
    using scenario_application [OF ne, of "scen 0 0 0 0 0 0" 3]
    by (simp add: Let_def av p0 z hd)
  show ?thesis
    using ne t1 t0 by (simp add: p1 p0)
qed

section \<open>Properties of the currency conversion service\<close>

text \<open>
  C6. At a fixed non-zero rate, converting a finite amount from pesos to dollars and back
  returns the amount, exactly over the rationals.
\<close>

theorem convertAmount_round_trip:
  assumes "exchangeRate st = Some r" and "r \<noteq> 0" and "toNumber pf a = Fin x"
  shows "convertAmount pf st (Num (convertAmount pf st a ARS USD)) USD ARS = Fin x"
  using assms by (simp add: convertAmount_def toNumber_def truthy_def rateValue_def)

theorem convertAmount_round_trip_witness:
  "exchangeRate dollars = Some 1270 \<and> (1270::rat) \<noteq> 0
   \<and> toNumber parseDecimal (Str ''1000.50'') = Fin (2001 / 2)
   \<and> convertAmount parseDecimal dollars (Str ''1000.50'') ARS USD = Fin (2001 / 2540)
   \<and> convertAmount parseDecimal dollars
        (Num (convertAmount parseDecimal dollars (Str ''1000.50'') ARS USD)) USD ARS
       = Fin (2001 / 2)"
proof -
  have r: "exchangeRate dollars = Some 1270"
    by (simp add: dollars_def)
  have n: "toNumber parseDecimal (Str ''1000.50'') = Fin (2001 / 2)"
    by (simp add: toNumber_def parseDecimal_def parseUnsigned_def is_digit_def digit_val_def
        digits_value_def)
  have c: "convertAmount parseDecimal dollars (Str ''1000.50'') ARS USD = Fin (2001 / 2540)"
    by (simp add: convertAmount_def n r truthy_def rateValue_def)
  show ?thesis
    using convertAmount_round_trip [OF r _ n] r n c by simp
qed

text \<open>
  C7. Neither operation has a failing path: each returns a value for every input. For an
  input that does not parse to a number, \<open>convertAmount\<close> returns the number 0 and
  \<open>formatAmount\<close> returns the string \<open>0\<close>, whatever the state, the currencies and the
  symbol flag.
\<close>

theorem malformed_amount_degrades_to_zero:
  assumes "isNaN (toNumber pf a)"
  shows "convertAmount pf st a fromCurrency toCurrency = Fin 0
         \<and> formatAmount pf st a showSymbol = ''0''"
  using assms by (cases "toNumber pf a") (simp_all add: convertAmount_def formatAmount_def)

theorem malformed_amount_degrades_to_zero_witness:
  "isNaN (toNumber parseDecimal (Str ''doce pesos''))
   \<and> convertAmount parseDecimal dollars (Str ''doce pesos'') ARS USD = Fin 0
   \<and> formatAmount parseDecimal dollars (Str ''doce pesos'') True = ''0''
   \<and> isNaN (toNumber parseDecimal (Num NaN))
   \<and> convertAmount parseDecimal pesos (Num NaN) USD ARS = Fin 0
   \<and> formatAmount parseDecimal pesos (Num NaN) False = ''0''"
proof -
  have s: "isNaN (toNumber parseDecimal (Str ''doce pesos''))"
    by (simp add: toNumber_def parseDecimal_def parseUnsigned_def is_digit_def digit_val_def)
  have n: "isNaN (toNumber parseDecimal (Num NaN))"
    by (simp add: toNumber_def)
  show ?thesis
    using malformed_amount_degrades_to_zero [OF s, of dollars ARS USD True]
      malformed_amount_degrades_to_zero [OF n, of pesos USD ARS False] s n
    by simp
qed

lemma digit_char_in: "n < 10 \<Longrightarrow> digit_char n \<in> set ''0123456789''"
  unfolding digit_char_def by (rule nth_mem) simp

lemma digits_chars: "set (digits n) \<subseteq> set ''0123456789''"
proof (induction n rule: digits.induct)
  case (1 n)
  show ?case
  proof (cases "n < 10")
    case True
    then have "digits n = [digit_char n]"
      by (simp add: digits.simps [of n])
    with True digit_char_in [of n] show ?thesis
      by simp
  next
    case False
    then have d: "digits n = digits (n div 10) @ [digit_char (n mod 10)]"
      by (simp add: digits.simps [of n])
    have "digit_char (n mod 10) \<in> set ''0123456789''"
      by (rule digit_char_in) simp
    with "1.IH" [OF False] show ?thesis
      unfolding d by simp
  qed
qed

lemma group3_chars: "set (group3 ds) \<subseteq> insert (CHR ''.'') (set ds)"
proof (induction ds rule: group3.induct)
  case (1 ds)
  show ?case
  proof (cases "length ds \<le> 3")
    case True
    then have "group3 ds = ds"
      by (simp add: group3.simps [of ds])
    then show ?thesis
      by auto
  next
    case False
    then have g: "group3 ds = group3 (take (length ds - 3) ds) @ ''.'' @ drop (length ds - 3) ds"
      by (simp add: group3.simps [of ds])
    have "set (take (length ds - 3) ds) \<subseteq> set ds" "set (drop (length ds - 3) ds) \<subseteq> set ds"
      by (simp_all add: set_take_subset set_drop_subset)
    with "1.IH" [OF False] show ?thesis
      unfolding g by auto
  qed
qed

lemma format_nonneg_subset:
  assumes D: "set ''0123456789'' \<subseteq> S" and dot: "CHR ''.'' \<in> S" and comma: "CHR '','' \<in> S"
  shows "set (format_nonneg d x) \<subseteq> S"
proof -
  have dk: "set (digits k) \<subseteq> S" for k
    using digits_chars [of k] D by (rule subset_trans)
  have g: "set (group3 (digits k)) \<subseteq> S" for k
    using group3_chars [of "digits k"] dk [of k] dot by blast
  have "CHR ''0'' \<in> set ''0123456789''"
    by simp
  with D have zero: "CHR ''0'' \<in> S"
    by (rule_tac subsetD)
  have p: "set (pad_zeros d (digits k)) \<subseteq> S" for k
    using dk [of k] zero by (auto simp: pad_zeros_def)
  show ?thesis
    using g p comma by (auto simp: format_nonneg_def Let_def)
qed

lemma numberFormat_abs_no_minus: "CHR ''-'' \<notin> set (numberFormat_es_AR d \<bar>x\<bar>)"
proof -
  have "set (format_nonneg d \<bar>x\<bar>) \<subseteq> UNIV - {CHR ''-''}"
    by (rule format_nonneg_subset) simp_all
  then show ?thesis
    by (auto simp: numberFormat_es_AR_def)
qed

text \<open>
  C10. \<open>formatAmount\<close> renders a negative finite number exactly as its absolute value:
  the two strings are equal, and the rendering of the negative number contains no minus
  sign.
\<close>

theorem formatAmount_drops_sign:
  assumes "x < 0"
  shows "formatAmount pf st (Num (Fin x)) showSymbol = formatAmount pf st (Num (Fin \<bar>x\<bar>)) showSymbol
         \<and> CHR ''-'' \<notin> set (formatAmount pf st (Num (Fin x)) showSymbol)"
proof -
  have eq: "formatAmount pf st (Num (Fin x)) showSymbol
      = formatAmount pf st (Num (Fin \<bar>x\<bar>)) showSymbol"
    by (simp add: formatAmount_def toNumber_def Let_def)
  have "CHR ''-'' \<notin> set (formatAmount pf st (Num (Fin x)) showSymbol)"
    using numberFormat_abs_no_minus
    by (simp add: formatAmount_def toNumber_def Let_def)
  with eq show ?thesis
    by simp
qed

theorem formatAmount_drops_sign_witness:
  "(- 1234567 / 2 :: rat) < 0
   \<and> formatAmount parseDecimal pesos (Num (Fin (- 1234567 / 2))) True = ''$617.284 ARS''
   \<and> formatAmount parseDecimal pesos (Num (Fin \<bar>- 1234567 / 2\<bar>)) True = ''$617.284 ARS''
   \<and> CHR ''-'' \<notin> set (formatAmount parseDecimal pesos (Num (Fin (- 1234567 / 2))) True)"
proof -
  have neg: "(- 1234567 / 2 :: rat) < 0"
    by simp
  have f: "formatAmount parseDecimal pesos (Num (Fin (- 1234567 / 2))) True = ''$617.284 ARS''"
    by (simp add: formatAmount_def pesos_def toNumber_def numberFormat_es_AR_def
        format_nonneg_def digit_char_def digits.simps group3.simps)
  show ?thesis
    using formatAmount_drops_sign [OF neg, of parseDecimal pesos True] neg f by simp
qed

section \<open>Properties of the per-user routes\<close>

lemma split_blank_nonempty: "split_blank s \<noteq> []"
  by (induction s) (auto split: list.splits)

text \<open>
  C5, as the code has it for the notifications resource. \<open>GET /api/notifications/:userId\<close>
  answers 401 when the header carries no token, 403 when the token does not verify, and 403
  when it verifies for a user other than \<open>:userId\<close>; it answers 200 only to a token that
  verifies for \<open>:userId\<close>, and then with that user's notifications.
\<close>

theorem getNotifications_access:
  "(no_token (bearerToken (authorization req)) \<longrightarrow>
      status (getNotifications verifyToken store req) = 401)
   \<and> (\<not> no_token (bearerToken (authorization req))
        \<and> verifyToken (the (bearerToken (authorization req))) = None \<longrightarrow>
      status (getNotifications verifyToken store req) = 403)
   \<and> (\<forall>payload. \<not> no_token (bearerToken (authorization req))
        \<and> verifyToken (the (bearerToken (authorization req))) = Some payload
        \<and> userId payload \<noteq> param_userId req \<longrightarrow>
      status (getNotifications verifyToken store req) = 403)
   \<and> (status (getNotifications verifyToken store req) = 200 \<longrightarrow>
      (\<exists>payload t. bearerToken (authorization req) = Some t \<and> t \<noteq> []
         \<and> verifyToken t = Some payload \<and> userId payload = param_userId req
         \<and> (\<exists>rows. store (param_userId req) (limit_or (query_limit req) 20) = Some rows
               \<and> body (getNotifications verifyToken store req) = Json rows)))"
proof -
  let ?tok = "bearerToken (authorization req)"
  show ?thesis
  proof (cases "no_token ?tok")
    case True
    then show ?thesis
      by (simp add: getNotifications_def authenticateToken_def)
  next
    case False
    then obtain t where t: "?tok = Some t" "t \<noteq> []"
      by (auto simp: no_token_def)
    show ?thesis
    proof (cases "verifyToken t")
      case None
      with False t show ?thesis
        by (simp add: getNotifications_def authenticateToken_def)
    next
      case (Some payload)
      with False t show ?thesis
        by (auto simp: getNotifications_def authenticateToken_def Let_def split: option.splits)
    qed
  qed
qed

theorem getNotifications_access_witness:
  "status (getNotifications verify2 rowsOf (request None ''ana'')) = 401
   \<and> status (getNotifications verify2 rowsOf (request (Some ''Bearer'') ''ana'')) = 401
   \<and> status (getNotifications verify2 rowsOf (request (Some ''Bearer tok-eva'') ''ana'')) = 403
   \<and> status (getNotifications verify2 rowsOf (request (Some ''Bearer tok-luis'') ''ana'')) = 403
   \<and> getNotifications verify2 rowsOf (request (Some ''Bearer tok-ana'') ''ana'')
       = \<lparr>status = 200, body = Json ''rows of ana''\<rparr>"
proof -
  have b: "bearerToken (authorization (request None ''ana'')) = None"
    "bearerToken (authorization (request (Some ''Bearer'') ''ana'')) = None"
    "bearerToken (authorization (request (Some ''Bearer tok-eva'') ''ana'')) = Some ''tok-eva''"
    "bearerToken (authorization (request (Some ''Bearer tok-luis'') ''ana'')) = Some ''tok-luis''"
    "bearerToken (authorization (request (Some ''Bearer tok-ana'') ''ana'')) = Some ''tok-ana''"
    by (simp_all add: bearerToken_def request_def)
  have ok: "getNotifications verify2 rowsOf (request (Some ''Bearer tok-ana'') ''ana'')
      = \<lparr>status = 200, body = Json ''rows of ana''\<rparr>"
    by (simp add: getNotifications_def authenticateToken_def b no_token_def verify2_def
        rowsOf_def Let_def) (simp add: request_def)
  show ?thesis
    using getNotifications_access [of "request None ''ana''" verify2 rowsOf]
      getNotifications_access [of "request (Some ''Bearer'') ''ana''" verify2 rowsOf]
      getNotifications_access [of "request (Some ''Bearer tok-eva'') ''ana''" verify2 rowsOf]
      getNotifications_access [of "request (Some ''Bearer tok-luis'') ''ana''" verify2 rowsOf]
      ok
    by (simp add: b no_token_def verify2_def) (simp add: request_def)
qed

text \<open>
  The claim as stated fails on the same route: a token that is present but does not verify
  is answered 403, not 401.
\<close>

theorem invalid_token_counterexample:
  "status (getNotifications verify2 rowsOf (request (Some ''Bearer tok-eva'') ''ana'')) = 403
   \<and> status (getNotifications verify2 rowsOf (request (Some ''Bearer tok-eva'') ''ana'')) \<noteq> 401"
  by (simp add: getNotifications_def authenticateToken_def bearerToken_def request_def
      no_token_def verify2_def)

text \<open>
  \<open>GET /api/transactions/:userId\<close> never compares the token's user with \<open>:userId\<close>:
  without any token it answers 200 with the rows of the user named in the path.
\<close>

lemma getTransactions_without_token:
  "getTransactions verify2 rowsOf (request None ''ana'') = \<lparr>status = 200, body = Json ''rows of ana''\<rparr>"
  by (simp add: getTransactions_def optionalAuth_def bearerToken_def request_def no_token_def
      rowsOf_def)

section \<open>Properties of the projection pipeline\<close>

lemma futureProjection_cong:
  "r1 i = r2 i \<Longrightarrow> futureProjection ps r1 i = futureProjection ps r2 i"
  by (simp add: futureProjection_def)

lemma updateKey_length: "length (updateKey k f kvs) = length kvs"
  by (induction kvs) auto

lemma hasKey_nonempty: "hasKey k kvs \<Longrightarrow> kvs \<noteq> []"
  by (cases kvs) simp_all

lemma addTransaction_length:
  "length (addTransaction monthlyData transaction) =
     (if hasKey (monthKey (tdate transaction)) monthlyData then length monthlyData
      else Suc (length monthlyData))"
  by (simp add: addTransaction_def Let_def updateKey_length)

lemma addTransaction_nonempty: "addTransaction monthlyData transaction \<noteq> []"
proof -
  have "0 < length (addTransaction monthlyData transaction)"
    using hasKey_nonempty [of "monthKey (tdate transaction)" monthlyData]
    by (simp add: addTransaction_length)
  then show ?thesis
    by simp
qed

lemma foldl_addTransaction_nonempty:
  "transactions \<noteq> [] \<Longrightarrow> foldl addTransaction monthlyData transactions \<noteq> []"
proof (induction transactions arbitrary: monthlyData)
  case Nil
  then show ?case by simp
next
  case (Cons t ts)
  show ?case
  proof (cases ts)
    case Nil
    then show ?thesis
      by (simp add: addTransaction_nonempty)
  next
    case (Cons u us)
    with Cons.IH [of "addTransaction monthlyData t"] show ?thesis
      by simp
  qed
qed

lemma insertKey_length: "length (insertKey kv kvs) = Suc (length kvs)"
  by (induction kvs) simp_all

lemma sortByKey_length: "length (sortByKey kvs) = length kvs"
  unfolding sortByKey_def by (induction kvs) (simp_all add: insertKey_length)

lemma historicalProjections_nonempty:
  "transactions \<noteq> [] \<Longrightarrow> historicalProjections transactions \<noteq> []"
proof -
  assume "transactions \<noteq> []"
  then have "length (sortByKey (foldl addTransaction [] transactions)) \<noteq> 0"
    using foldl_addTransaction_nonempty [of transactions "[]"]
    by (simp add: sortByKey_length)
  then have "sortByKey (foldl addTransaction [] transactions) \<noteq> []"
    by (simp only: length_0_conv not_False_eq_True)
  then show ?thesis
    by (simp add: historicalProjections_def)
qed

lemma generateProjectionsFromTransactions_output:
  assumes "transactions \<noteq> []"
  shows "generateProjectionsFromTransactions transactions random =
     historicalProjections transactions
       @ map (futureProjection (historicalProjections transactions) random) [1, 2, 3, 4, 5, 6]"
  using assms historicalProjections_nonempty [OF assms]
  by (simp add: generateProjectionsFromTransactions_def Let_def)

lemma futureProjection_fields:
  "futureProjection ps r i =
     \<lparr>date = setMonth (date (last ps)) (getMonth (date (last ps)) + int i),
      projectedIncome =
        Some (mean (map (\<lambda>p. or0 (projectedIncome p)) ps) * (1 + (r i - 1 / 2) * (1 / 10))),
      projectedExpenses =
        Some (mean (map (\<lambda>p. or0 (projectedExpenses p)) ps) * (1 + (r i - 1 / 2) * (1 / 10))),
      netFlow =
        Some (mean (map (\<lambda>p. or0 (projectedIncome p)) ps) * (1 + (r i - 1 / 2) * (1 / 10))
              - mean (map (\<lambda>p. or0 (projectedExpenses p)) ps) * (1 + (r i - 1 / 2) * (1 / 10)))\<rparr>"
  by (simp add: futureProjection_def Let_def mean_def foldl_plus_sum_list)

lemma future_entries:
  assumes "transactions \<noteq> []" and "k < 6"
  shows "generateProjectionsFromTransactions transactions random
           ! (length (historicalProjections transactions) + k)
         = futureProjection (historicalProjections transactions) random (Suc k)"
proof -
  have "map (futureProjection ps random) [1, 2, 3, 4, 5, 6] ! k = futureProjection ps random (Suc k)"
    for ps
  proof -
    from assms(2) have "k \<in> {0, 1, 2, 3, 4, 5}"
      by (simp only: insert_iff empty_iff) arith
    then show ?thesis
      by (auto simp add: numeral_eq_Suc)
  qed
  then show ?thesis
    by (simp add: generateProjectionsFromTransactions_output [OF assms(1)] nth_append)
qed


lemma updateKey_income:
  "hasKey k kvs \<Longrightarrow>
     sum_list (map (\<lambda>kv. mdIncome (snd kv)) (updateKey k (\<lambda>m. m\<lparr>mdIncome := mdIncome m + a\<rparr>) kvs))
       = sum_list (map (\<lambda>kv. mdIncome (snd kv)) kvs) + a
     \<and> sum_list (map (\<lambda>kv. mdExpenses (snd kv)) (updateKey k (\<lambda>m. m\<lparr>mdIncome := mdIncome m + a\<rparr>) kvs))
       = sum_list (map (\<lambda>kv. mdExpenses (snd kv)) kvs)"
  by (induction kvs) auto

lemma updateKey_expenses:
  "hasKey k kvs \<Longrightarrow>
     sum_list (map (\<lambda>kv. mdExpenses (snd kv)) (updateKey k (\<lambda>m. m\<lparr>mdExpenses := mdExpenses m + a\<rparr>) kvs))
       = sum_list (map (\<lambda>kv. mdExpenses (snd kv)) kvs) + a
     \<and> sum_list (map (\<lambda>kv. mdIncome (snd kv)) (updateKey k (\<lambda>m. m\<lparr>mdExpenses := mdExpenses m + a\<rparr>) kvs))
       = sum_list (map (\<lambda>kv. mdIncome (snd kv)) kvs)"
  by (induction kvs) auto

lemma hasKey_append: "hasKey k (kvs @ [(k, v)])"
  by (induction kvs) auto

lemma addTransaction_totals:
  "sum_list (map (\<lambda>kv. mdIncome (snd kv)) (addTransaction monthlyData t))
     = sum_list (map (\<lambda>kv. mdIncome (snd kv)) monthlyData)
       + (if ttype t = income then amount t else 0)"
  "sum_list (map (\<lambda>kv. mdExpenses (snd kv)) (addTransaction monthlyData t))
     = sum_list (map (\<lambda>kv. mdExpenses (snd kv)) monthlyData)
       + (if ttype t = income then 0 else \<bar>amount t\<bar>)"
  by (simp_all add: addTransaction_def Let_def updateKey_income updateKey_expenses hasKey_append)

lemma foldl_addTransaction_totals:
  "sum_list (map (\<lambda>kv. mdIncome (snd kv)) (foldl addTransaction monthlyData ts))
     = sum_list (map (\<lambda>kv. mdIncome (snd kv)) monthlyData)
       + sum_list (map amount (filter (\<lambda>t. ttype t = income) ts))"
  "sum_list (map (\<lambda>kv. mdExpenses (snd kv)) (foldl addTransaction monthlyData ts))
     = sum_list (map (\<lambda>kv. mdExpenses (snd kv)) monthlyData)
       + sum_list (map (\<lambda>t. \<bar>amount t\<bar>) (filter (\<lambda>t. ttype t \<noteq> income) ts))"
  by (induction ts arbitrary: monthlyData) (simp_all add: addTransaction_totals)

lemma insertKey_sum:
  "sum_list (map g (insertKey kv kvs)) = g kv + sum_list (map g kvs)"
  for g :: "string \<times> 'v \<Rightarrow> rat"
  by (induction kvs) simp_all

lemma sortByKey_sum: "sum_list (map g (sortByKey kvs)) = sum_list (map g kvs)"
  for g :: "string \<times> 'v \<Rightarrow> rat"
  unfolding sortByKey_def by (induction kvs) (simp_all add: insertKey_sum)

lemma historicalProjections_totals:
  "sum_list (map (\<lambda>p. or0 (projectedIncome p)) (historicalProjections transactions))
     = sum_list (map amount (filter (\<lambda>t. ttype t = income) transactions))"
  "sum_list (map (\<lambda>p. or0 (projectedExpenses p)) (historicalProjections transactions))
     = sum_list (map (\<lambda>t. \<bar>amount t\<bar>) (filter (\<lambda>t. ttype t \<noteq> income) transactions))"
proof -
  have "map (\<lambda>p. or0 (projectedIncome p)) (historicalProjections transactions)
      = map (\<lambda>kv. mdIncome (snd kv)) (sortByKey (foldl addTransaction [] transactions))"
    by (simp add: historicalProjections_def or0_def case_prod_beta)
  then show "sum_list (map (\<lambda>p. or0 (projectedIncome p)) (historicalProjections transactions))
     = sum_list (map amount (filter (\<lambda>t. ttype t = income) transactions))"
    by (simp add: sortByKey_sum foldl_addTransaction_totals)
  have "map (\<lambda>p. or0 (projectedExpenses p)) (historicalProjections transactions)
      = map (\<lambda>kv. mdExpenses (snd kv)) (sortByKey (foldl addTransaction [] transactions))"
    by (simp add: historicalProjections_def or0_def case_prod_beta)
  then show "sum_list (map (\<lambda>p. or0 (projectedExpenses p)) (historicalProjections transactions))
     = sum_list (map (\<lambda>t. \<bar>amount t\<bar>) (filter (\<lambda>t. ttype t \<noteq> income) transactions))"
    by (simp add: sortByKey_sum foldl_addTransaction_totals)
qed

text \<open>
  C2, as the code has it. The pipeline is a function of its inputs and of the six values
  that \<open>Math.random()\<close> returns while the future projections are generated: two runs
  whose draws agree give the same projections and the same metrics. The monthly aggregation
  (the historical entries) does not depend on the draws, and its incomes and expenses add
  up to those of the transactions. On a non-empty transaction list the generator returns
  the historical entries followed by exactly six future entries; the \<open>k\<close>-th of them is
  dated \<open>k\<close> months after the last historical entry and carries the historical average
  income and expenses, each scaled by \<open>1 + (draw - 0.5) * 0.1\<close> with the \<open>k\<close>-th draw.
  The component computes the metrics over the generated projections when it is given none,
  and over the given ones otherwise: then the metrics depend on neither the draws nor the
  transactions.
\<close>

theorem pipeline_determined_by_inputs_and_draws:
  "((\<forall>i \<in> {1, 2, 3, 4, 5, 6}. r1 i = r2 i) \<longrightarrow>
      generateProjectionsFromTransactions txs r1 = generateProjectionsFromTransactions txs r2
      \<and> projectionPipeline data txs r1 scenario months
          = projectionPipeline data txs r2 scenario months)
   \<and> (txs \<noteq> [] \<longrightarrow>
        take (length (historicalProjections txs)) (generateProjectionsFromTransactions txs r1)
          = historicalProjections txs)
   \<and> generateProjectionsFromTransactions [] r1 = []
   \<and> (\<forall>i. projectedIncome (futureProjection ps r1 i)
            = Some (mean (map (\<lambda>p. or0 (projectedIncome p)) ps) * (1 + (r1 i - 1 / 2) * (1 / 10)))
          \<and> projectedExpenses (futureProjection ps r1 i)
            = Some (mean (map (\<lambda>p. or0 (projectedExpenses p)) ps) * (1 + (r1 i - 1 / 2) * (1 / 10))))
   \<and> (data \<noteq> [] \<longrightarrow>
        projectionPipeline data txs r1 scenario months
          = projectionPipeline data txs' r2 scenario months)
   \<and> (txs \<noteq> [] \<longrightarrow>
        (let hist = historicalProjections txs;
             out = generateProjectionsFromTransactions txs r1;
             avgIncome = mean (map (\<lambda>p. or0 (projectedIncome p)) hist);
             avgExpenses = mean (map (\<lambda>p. or0 (projectedExpenses p)) hist);
             lastDate = date (last hist)
         in hist \<noteq> []
          \<and> out = hist @ map (futureProjection hist r1) [1, 2, 3, 4, 5, 6]
          \<and> length out = length hist + 6
          \<and> (\<forall>k < 6. out ! (length hist + k) =
                \<lparr>date = setMonth lastDate (getMonth lastDate + int (Suc k)),
                 projectedIncome = Some (avgIncome * (1 + (r1 (Suc k) - 1 / 2) * (1 / 10))),
                 projectedExpenses = Some (avgExpenses * (1 + (r1 (Suc k) - 1 / 2) * (1 / 10))),
                 netFlow = Some (avgIncome * (1 + (r1 (Suc k) - 1 / 2) * (1 / 10))
                                 - avgExpenses * (1 + (r1 (Suc k) - 1 / 2) * (1 / 10)))\<rparr>)))
   \<and> sum_list (map (\<lambda>p. or0 (projectedIncome p)) (historicalProjections txs))
       = sum_list (map amount (filter (\<lambda>t. ttype t = income) txs))
   \<and> sum_list (map (\<lambda>p. or0 (projectedExpenses p)) (historicalProjections txs))
       = sum_list (map (\<lambda>t. \<bar>amount t\<bar>) (filter (\<lambda>t. ttype t \<noteq> income) txs))
   \<and> projectionPipeline [] txs r1 scenario months
       = calculateProjectionMetrics (generateProjectionsFromTransactions txs r1) scenario months
   \<and> (data \<noteq> [] \<longrightarrow>
        projectionPipeline data txs r1 scenario months
          = calculateProjectionMetrics data scenario months)"
proof -
  have gen: "generateProjectionsFromTransactions txs r1 = generateProjectionsFromTransactions txs r2"
    if "\<forall>i \<in> {1, 2, 3, 4, 5, 6}. r1 i = r2 i"
  proof -
    have "map (futureProjection ps r1) [1, 2, 3, 4, 5, 6]
        = map (futureProjection ps r2) [1, 2, 3, 4, 5, 6]" for ps
      using that by (simp add: futureProjection_def)
    then show ?thesis
      by (simp add: generateProjectionsFromTransactions_def Let_def)
  qed
  have pipe: "projectionPipeline data txs r1 scenario months
      = projectionPipeline data txs r2 scenario months"
    if "\<forall>i \<in> {1, 2, 3, 4, 5, 6}. r1 i = r2 i"
    using gen [OF that] by (simp add: projectionPipeline_def)
  have hist: "take (length (historicalProjections txs)) (generateProjectionsFromTransactions txs r1)
      = historicalProjections txs" if "txs \<noteq> []"
    using that by (simp add: generateProjectionsFromTransactions_def Let_def)
  have empty: "generateProjectionsFromTransactions [] r1 = []"
    by (simp add: generateProjectionsFromTransactions_def)
  have fut: "projectedIncome (futureProjection ps r1 i)
            = Some (mean (map (\<lambda>p. or0 (projectedIncome p)) ps) * (1 + (r1 i - 1 / 2) * (1 / 10)))
          \<and> projectedExpenses (futureProjection ps r1 i)
            = Some (mean (map (\<lambda>p. or0 (projectedExpenses p)) ps) * (1 + (r1 i - 1 / 2) * (1 / 10)))"
    for i
    by (simp add: futureProjection_def Let_def mean_def foldl_plus_sum_list)
  have given: "projectionPipeline data txs r1 scenario months
      = projectionPipeline data txs' r2 scenario months" if "data \<noteq> []"
    using that by (simp add: projectionPipeline_def)
  from gen pipe have a: "(\<forall>i \<in> {1, 2, 3, 4, 5, 6}. r1 i = r2 i) \<longrightarrow>
      generateProjectionsFromTransactions txs r1 = generateProjectionsFromTransactions txs r2
      \<and> projectionPipeline data txs r1 scenario months
          = projectionPipeline data txs r2 scenario months"
    by (intro impI conjI)
  from hist have b: "txs \<noteq> [] \<longrightarrow>
        take (length (historicalProjections txs)) (generateProjectionsFromTransactions txs r1)
          = historicalProjections txs"
    by (intro impI)
  from fut have c: "\<forall>i. projectedIncome (futureProjection ps r1 i)
            = Some (mean (map (\<lambda>p. or0 (projectedIncome p)) ps) * (1 + (r1 i - 1 / 2) * (1 / 10)))
          \<and> projectedExpenses (futureProjection ps r1 i)
            = Some (mean (map (\<lambda>p. or0 (projectedExpenses p)) ps) * (1 + (r1 i - 1 / 2) * (1 / 10)))"
    by (intro allI)
  from given have d: "data \<noteq> [] \<longrightarrow>
        projectionPipeline data txs r1 scenario months
          = projectionPipeline data txs' r2 scenario months"
    by (intro impI)
  have e: "txs \<noteq> [] \<longrightarrow>
        (let hist = historicalProjections txs;
             out = generateProjectionsFromTransactions txs r1;
             avgIncome = mean (map (\<lambda>p. or0 (projectedIncome p)) hist);
             avgExpenses = mean (map (\<lambda>p. or0 (projectedExpenses p)) hist);
             lastDate = date (last hist)
         in hist \<noteq> []
          \<and> out = hist @ map (futureProjection hist r1) [1, 2, 3, 4, 5, 6]
          \<and> length out = length hist + 6
          \<and> (\<forall>k < 6. out ! (length hist + k) =
                \<lparr>date = setMonth lastDate (getMonth lastDate + int (Suc k)),
                 projectedIncome = Some (avgIncome * (1 + (r1 (Suc k) - 1 / 2) * (1 / 10))),
                 projectedExpenses = Some (avgExpenses * (1 + (r1 (Suc k) - 1 / 2) * (1 / 10))),
                 netFlow = Some (avgIncome * (1 + (r1 (Suc k) - 1 / 2) * (1 / 10))
                                 - avgExpenses * (1 + (r1 (Suc k) - 1 / 2) * (1 / 10)))\<rparr>))"
  proof
    assume ne: "txs \<noteq> []"
    have e1: "historicalProjections txs \<noteq> []"
      using ne by (rule historicalProjections_nonempty)
    have e2: "generateProjectionsFromTransactions txs r1 =
        historicalProjections txs
          @ map (futureProjection (historicalProjections txs) r1) [1, 2, 3, 4, 5, 6]"
      using ne by (rule generateProjectionsFromTransactions_output)
    have e3: "length (generateProjectionsFromTransactions txs r1)
        = length (historicalProjections txs) + 6"
      unfolding e2 by simp
    have e4: "\<forall>k < 6. generateProjectionsFromTransactions txs r1
          ! (length (historicalProjections txs) + k) =
        \<lparr>date = setMonth (date (last (historicalProjections txs)))
                  (getMonth (date (last (historicalProjections txs))) + int (Suc k)),
         projectedIncome =
           Some (mean (map (\<lambda>p. or0 (projectedIncome p)) (historicalProjections txs))
                 * (1 + (r1 (Suc k) - 1 / 2) * (1 / 10))),
         projectedExpenses =
           Some (mean (map (\<lambda>p. or0 (projectedExpenses p)) (historicalProjections txs))
                 * (1 + (r1 (Suc k) - 1 / 2) * (1 / 10))),
         netFlow =
           Some (mean (map (\<lambda>p. or0 (projectedIncome p)) (historicalProjections txs))
                 * (1 + (r1 (Suc k) - 1 / 2) * (1 / 10))
                 - mean (map (\<lambda>p. or0 (projectedExpenses p)) (historicalProjections txs))
                   * (1 + (r1 (Suc k) - 1 / 2) * (1 / 10)))\<rparr>"
      using future_entries [OF ne, of _ r1]
      by (simp only: futureProjection_fields [symmetric]) blast
    from e1 e2 e3 e4 show "let hist = historicalProjections txs;
             out = generateProjectionsFromTransactions txs r1;
             avgIncome = mean (map (\<lambda>p. or0 (projectedIncome p)) hist);
             avgExpenses = mean (map (\<lambda>p. or0 (projectedExpenses p)) hist);
             lastDate = date (last hist)
         in hist \<noteq> []
          \<and> out = hist @ map (futureProjection hist r1) [1, 2, 3, 4, 5, 6]
          \<and> length out = length hist + 6
          \<and> (\<forall>k < 6. out ! (length hist + k) =
                \<lparr>date = setMonth lastDate (getMonth lastDate + int (Suc k)),
                 projectedIncome = Some (avgIncome * (1 + (r1 (Suc k) - 1 / 2) * (1 / 10))),
                 projectedExpenses = Some (avgExpenses * (1 + (r1 (Suc k) - 1 / 2) * (1 / 10))),
                 netFlow = Some (avgIncome * (1 + (r1 (Suc k) - 1 / 2) * (1 / 10))
                                 - avgExpenses * (1 + (r1 (Suc k) - 1 / 2) * (1 / 10)))\<rparr>)"
      unfolding Let_def by (intro conjI)
  qed
  note f = historicalProjections_totals [of txs]
  have g: "projectionPipeline [] txs r1 scenario months
       = calculateProjectionMetrics (generateProjectionsFromTransactions txs r1) scenario months"
    by (simp add: projectionPipeline_def)
  have h: "data \<noteq> [] \<longrightarrow>
        projectionPipeline data txs r1 scenario months
          = calculateProjectionMetrics data scenario months"
    by (simp add: projectionPipeline_def)
  from a b empty c d e f g h show ?thesis
    by (intro conjI)
qed

lemma sample_low:
  "generateProjectionsFromTransactions sampleTransactions drawsLow =
     \<lparr>date = 1793491200000, projectedIncome = Some 1000, projectedExpenses = Some 400,
       netFlow = Some 600\<rparr>
     # map (\<lambda>t. \<lparr>date = t, projectedIncome = Some 950, projectedExpenses = Some 380,
                  netFlow = Some 570\<rparr>)
         [1796083200000, 1798761600000, 1801440000000, 1803859200000, 1806537600000,
          1809129600000]"
  by code_simp

lemma sample_mid:
  "generateProjectionsFromTransactions sampleTransactions drawsMid =
     \<lparr>date = 1793491200000, projectedIncome = Some 1000, projectedExpenses = Some 400,
       netFlow = Some 600\<rparr>
     # map (\<lambda>t. \<lparr>date = t, projectedIncome = Some 1000, projectedExpenses = Some 400,
                  netFlow = Some 600\<rparr>)
         [1796083200000, 1798761600000, 1801440000000, 1803859200000, 1806537600000,
          1809129600000]"
  by code_simp

lemma sample_next_month:
  "setMonth 1793491200000 (getMonth 1793491200000 + 1) = 1796083200000"
  by code_simp

theorem pipeline_determined_by_inputs_and_draws_witness:
  "sampleTransactions \<noteq> []
   \<and> take (length (historicalProjections sampleTransactions))
        (generateProjectionsFromTransactions sampleTransactions drawsLow)
       = historicalProjections sampleTransactions
   \<and> historicalProjections sampleTransactions
       = [\<lparr>date = 1793491200000, projectedIncome = Some 1000, projectedExpenses = Some 400,
           netFlow = Some 600\<rparr>]
   \<and> generateProjectionsFromTransactions sampleTransactions (\<lambda>i. if i = 0 then 1 else 0)
       = generateProjectionsFromTransactions sampleTransactions drawsLow
   \<and> projectionPipeline (series [(1000, 400)]) sampleTransactions drawsLow (scen 0 0 0 0 0 0) 6
       = projectionPipeline (series [(1000, 400)]) [] drawsMid (scen 0 0 0 0 0 0) 6
   \<and> length (generateProjectionsFromTransactions sampleTransactions drawsLow) = 7
   \<and> generateProjectionsFromTransactions sampleTransactions drawsLow ! 1
       = \<lparr>date = 1796083200000, projectedIncome = Some 950, projectedExpenses = Some 380,
          netFlow = Some 570\<rparr>
   \<and> generateProjectionsFromTransactions sampleTransactions drawsMid ! 1
       = \<lparr>date = 1796083200000, projectedIncome = Some 1000, projectedExpenses = Some 400,
          netFlow = Some 600\<rparr>
   \<and> projectionPipeline (series [(1000, 400)]) sampleTransactions drawsLow (scen 0 0 0 0 0 0) 6
       = calculateProjectionMetrics (series [(1000, 400)]) (scen 0 0 0 0 0 0) 6"
proof -
  have ne: "sampleTransactions \<noteq> []"
    by (simp add: sampleTransactions_def)
  have h: "historicalProjections sampleTransactions
       = [\<lparr>date = 1793491200000, projectedIncome = Some 1000, projectedExpenses = Some 400,
           netFlow = Some 600\<rparr>]"
    by code_simp
  have d: "\<forall>i \<in> {1, 2, 3, 4, 5, 6}. (\<lambda>i. if i = 0 then 1 else 0 :: rat) i = drawsLow i"
    by (simp add: drawsLow_def)
  have s: "series [(1000, 400)] \<noteq> []"
    by (simp add: series_def)
  note A = pipeline_determined_by_inputs_and_draws
    [where ?r1.0 = "\<lambda>i. if i = 0 then 1 else 0" and ?r2.0 = drawsLow
      and txs = sampleTransactions and data = "series [(1000, 400)]"
      and scenario = "scen 0 0 0 0 0 0" and months = 6 and ps = "[]" and txs' = "[]"]
  note B = pipeline_determined_by_inputs_and_draws
    [where ?r1.0 = drawsLow and ?r2.0 = drawsMid
      and txs = sampleTransactions and data = "series [(1000, 400)]"
      and scenario = "scen 0 0 0 0 0 0" and months = 6 and ps = "[]" and txs' = "[]"]
  note C = pipeline_determined_by_inputs_and_draws
    [where ?r1.0 = drawsMid and ?r2.0 = drawsMid
      and txs = sampleTransactions and data = "series [(1000, 400)]"
      and scenario = "scen 0 0 0 0 0 0" and months = 6 and ps = "[]" and txs' = "[]"]
  from A d have e1: "generateProjectionsFromTransactions sampleTransactions
      (\<lambda>i. if i = 0 then 1 else 0)
       = generateProjectionsFromTransactions sampleTransactions drawsLow"
    by blast
  from B ne have e2: "take (length (historicalProjections sampleTransactions))
        (generateProjectionsFromTransactions sampleTransactions drawsLow)
       = historicalProjections sampleTransactions"
    by blast
  from B s have e3: "projectionPipeline (series [(1000, 400)]) sampleTransactions drawsLow
        (scen 0 0 0 0 0 0) 6
       = projectionPipeline (series [(1000, 400)]) [] drawsMid (scen 0 0 0 0 0 0) 6"
    by blast
  from B s have e4: "projectionPipeline (series [(1000, 400)]) sampleTransactions drawsLow
        (scen 0 0 0 0 0 0) 6
       = calculateProjectionMetrics (series [(1000, 400)]) (scen 0 0 0 0 0 0) 6"
    by blast
  have m: "mean (map (\<lambda>p. or0 (projectedIncome p)) (historicalProjections sampleTransactions))
        = 1000"
      "mean (map (\<lambda>p. or0 (projectedExpenses p)) (historicalProjections sampleTransactions))
        = 400"
      "date (last (historicalProjections sampleTransactions)) = 1793491200000"
      "length (historicalProjections sampleTransactions) = 1"
    by (simp_all add: h mean_def or0_def)
  from B ne have "length (generateProjectionsFromTransactions sampleTransactions drawsLow)
      = length (historicalProjections sampleTransactions) + 6"
    unfolding Let_def by blast
  then have e5: "length (generateProjectionsFromTransactions sampleTransactions drawsLow) = 7"
    by (simp add: m)
  from B ne have "\<forall>k < 6. generateProjectionsFromTransactions sampleTransactions drawsLow
        ! (length (historicalProjections sampleTransactions) + k) =
      \<lparr>date = setMonth (date (last (historicalProjections sampleTransactions)))
                (getMonth (date (last (historicalProjections sampleTransactions))) + int (Suc k)),
       projectedIncome =
         Some (mean (map (\<lambda>p. or0 (projectedIncome p)) (historicalProjections sampleTransactions))
               * (1 + (drawsLow (Suc k) - 1 / 2) * (1 / 10))),
       projectedExpenses =
         Some (mean (map (\<lambda>p. or0 (projectedExpenses p)) (historicalProjections sampleTransactions))
               * (1 + (drawsLow (Suc k) - 1 / 2) * (1 / 10))),
       netFlow =
         Some (mean (map (\<lambda>p. or0 (projectedIncome p)) (historicalProjections sampleTransactions))
               * (1 + (drawsLow (Suc k) - 1 / 2) * (1 / 10))
               - mean (map (\<lambda>p. or0 (projectedExpenses p))
                    (historicalProjections sampleTransactions))
                 * (1 + (drawsLow (Suc k) - 1 / 2) * (1 / 10)))\<rparr>"
    unfolding Let_def by blast
  then have "generateProjectionsFromTransactions sampleTransactions drawsLow ! (1 + 0) =
      \<lparr>date = setMonth 1793491200000 (getMonth 1793491200000 + int (Suc 0)),
       projectedIncome = Some (1000 * (1 + (drawsLow (Suc 0) - 1 / 2) * (1 / 10))),
       projectedExpenses = Some (400 * (1 + (drawsLow (Suc 0) - 1 / 2) * (1 / 10))),
       netFlow = Some (1000 * (1 + (drawsLow (Suc 0) - 1 / 2) * (1 / 10))
                       - 400 * (1 + (drawsLow (Suc 0) - 1 / 2) * (1 / 10)))\<rparr>"
    unfolding m by (metis zero_less_numeral)
  then have e6: "generateProjectionsFromTransactions sampleTransactions drawsLow ! 1
       = \<lparr>date = 1796083200000, projectedIncome = Some 950, projectedExpenses = Some 380,
          netFlow = Some 570\<rparr>"
    by (simp add: sample_next_month drawsLow_def)
  from C ne have "\<forall>k < 6. generateProjectionsFromTransactions sampleTransactions drawsMid
        ! (length (historicalProjections sampleTransactions) + k) =
      \<lparr>date = setMonth (date (last (historicalProjections sampleTransactions)))
                (getMonth (date (last (historicalProjections sampleTransactions))) + int (Suc k)),
       projectedIncome =
         Some (mean (map (\<lambda>p. or0 (projectedIncome p)) (historicalProjections sampleTransactions))
               * (1 + (drawsMid (Suc k) - 1 / 2) * (1 / 10))),
       projectedExpenses =
         Some (mean (map (\<lambda>p. or0 (projectedExpenses p)) (historicalProjections sampleTransactions))
               * (1 + (drawsMid (Suc k) - 1 / 2) * (1 / 10))),
       netFlow =
         Some (mean (map (\<lambda>p. or0 (projectedIncome p)) (historicalProjections sampleTransactions))
               * (1 + (drawsMid (Suc k) - 1 / 2) * (1 / 10))
               - mean (map (\<lambda>p. or0 (projectedExpenses p))
                    (historicalProjections sampleTransactions))
                 * (1 + (drawsMid (Suc k) - 1 / 2) * (1 / 10)))\<rparr>"
    unfolding Let_def by blast
  then have "generateProjectionsFromTransactions sampleTransactions drawsMid ! (1 + 0) =
      \<lparr>date = setMonth 1793491200000 (getMonth 1793491200000 + int (Suc 0)),
       projectedIncome = Some (1000 * (1 + (drawsMid (Suc 0) - 1 / 2) * (1 / 10))),
       projectedExpenses = Some (400 * (1 + (drawsMid (Suc 0) - 1 / 2) * (1 / 10))),
       netFlow = Some (1000 * (1 + (drawsMid (Suc 0) - 1 / 2) * (1 / 10))
                       - 400 * (1 + (drawsMid (Suc 0) - 1 / 2) * (1 / 10)))\<rparr>"
    unfolding m by (metis zero_less_numeral)
  then have e7: "generateProjectionsFromTransactions sampleTransactions drawsMid ! 1
       = \<lparr>date = 1796083200000, projectedIncome = Some 1000, projectedExpenses = Some 400,
          netFlow = Some 600\<rparr>"
    by (simp add: sample_next_month drawsMid_def)
  from ne e2 h e1 e3 e5 e6 e7 e4 show ?thesis
    by (intro conjI)
qed

text \<open>
  The claim as stated fails: on the same transactions, scenario and month count, two runs
  whose draws differ give different projections and different metrics.
\<close>

theorem pipeline_not_pure_counterexample:
  "generateProjectionsFromTransactions sampleTransactions drawsLow
     \<noteq> generateProjectionsFromTransactions sampleTransactions drawsMid
   \<and> projectionPipeline [] sampleTransactions drawsLow (scen 0 0 0 0 0 0) 6
     \<noteq> projectionPipeline [] sampleTransactions drawsMid (scen 0 0 0 0 0 0) 6"
proof -
  have g: "generateProjectionsFromTransactions sampleTransactions drawsLow
      \<noteq> generateProjectionsFromTransactions sampleTransactions drawsMid"
    by (simp add: sample_low sample_mid)
  have "totalProjectedIncome (projectionPipeline [] sampleTransactions drawsLow (scen 0 0 0 0 0 0) 6)
      = 40200 / 7"
    unfolding projectionPipeline_def Let_def sample_low
    by (simp add: calculateProjectionMetrics_def projectedMonthly_def historicalAverages_def
        reduceAvg_def or0_def scen_def)
  moreover have
    "totalProjectedIncome (projectionPipeline [] sampleTransactions drawsMid (scen 0 0 0 0 0 0) 6)
      = 6000"
    unfolding projectionPipeline_def Let_def sample_mid
    by (simp add: calculateProjectionMetrics_def projectedMonthly_def historicalAverages_def
        reduceAvg_def or0_def scen_def)
  ultimately have "projectionPipeline [] sampleTransactions drawsLow (scen 0 0 0 0 0 0) 6
      \<noteq> projectionPipeline [] sampleTransactions drawsMid (scen 0 0 0 0 0 0) 6"
    by auto
  with g show ?thesis
    by simp
qed

section \<open>Properties of dates\<close>

lemma div_less_bound:
  fixes a :: int
  assumes "0 < m"
  shows "a div m < n \<longleftrightarrow> a < n * m"
proof -
  have e: "a = m * (a div m) + a mod m" and r: "0 \<le> a mod m" "a mod m < m"
    using assms by simp_all
  show ?thesis
  proof
    assume "a div m < n"
    then have "a div m + 1 \<le> n"
      by simp
    then have "m * (a div m + 1) \<le> m * n"
      using assms by (simp only: mult_le_cancel_left_pos)
    then have "m * (a div m) + m \<le> n * m"
      by (simp add: algebra_simps)
    with e r show "a < n * m"
      by linarith
  next
    assume "a < n * m"
    show "a div m < n"
    proof (rule ccontr)
      assume "\<not> a div m < n"
      then have "n \<le> a div m"
        by simp
      then have "m * n \<le> m * (a div m)"
        using assms by (simp only: mult_le_cancel_left_pos)
      then have "n * m \<le> m * (a div m)"
        by (simp only: mult.commute [of n m])
      with e r \<open>a < n * m\<close> show False
        by linarith
    qed
  qed
qed

lemma le_div_bound:
  fixes a :: int
  assumes "0 < m"
  shows "n \<le> a div m \<longleftrightarrow> n * m \<le> a"
  using div_less_bound [OF assms, of a n] by linarith

lemma yearSearch_le: "DayFromYear (yearSearch d y) \<le> d"
proof (induction d y rule: yearSearch.induct)
  case (1 d y)
  show ?case
  proof (cases "DayFromYear y \<le> d")
    case True
    then show ?thesis
      by (simp add: yearSearch.simps [of d y])
  next
    case False
    with "1.IH" show ?thesis
      by (simp add: yearSearch.simps [of d y])
  qed
qed

lemma DayWithinYear_nonneg: "0 \<le> DayWithinYear d"
  using yearSearch_le by (simp add: DayWithinYear_def YearFromDay_def)

lemma MonthFromDay_range: "0 \<le> MonthFromDay d \<and> MonthFromDay d \<le> 11"
proof -
  define ms where "ms = monthStarts (InLeapYear (YearFromDay d))"
  have len: "length ms = 12"
    by (simp add: ms_def monthStarts_def Let_def)
  obtain rest where hd: "ms = 0 # rest"
    by (simp add: ms_def monthStarts_def Let_def)
  have "length (filter (\<lambda>s. s \<le> DayWithinYear d) ms) \<le> 12"
    using length_filter_le [of _ ms] len by simp
  moreover have "1 \<le> length (filter (\<lambda>s. s \<le> DayWithinYear d) ms)"
    using DayWithinYear_nonneg [of d] by (simp add: hd)
  moreover have "MonthFromDay d = int (length (filter (\<lambda>s. s \<le> DayWithinYear d) ms)) - 1"
    by (simp only: MonthFromDay_def ms_def)
  ultimately show ?thesis
    by linarith
qed

lemma MakeDay_inverse:
  "MakeDay (YearFromDay d) (MonthFromDay d) (DateFromDay d + k) = d + k"
proof -
  have r: "0 \<le> MonthFromDay d" "MonthFromDay d < 12"
    using MonthFromDay_range [of d] by simp_all
  then have "MonthFromDay d div 12 = 0" "MonthFromDay d mod 12 = MonthFromDay d"
    by simp_all
  then show ?thesis
    by (simp add: MakeDay_def DateFromDay_def DayWithinYear_def Let_def)
qed

lemma MakeDate_Day: "MakeDate (Day t) (TimeWithinDay t) = t"
  by (simp add: MakeDate_def Day_def TimeWithinDay_def)

lemma setDate_shift: "setDate t (getDate t + k) = t + k * msPerDay"
proof -
  have "MakeDay (getFullYear t) (getMonth t) (getDate t + k) = Day t + k"
    unfolding getFullYear_def getMonth_def getDate_def by (rule MakeDay_inverse)
  then have "setDate t (getDate t + k) = MakeDate (Day t + k) (TimeWithinDay t)"
    by (simp add: setDate_def)
  also have "\<dots> = MakeDate (Day t) (TimeWithinDay t) + k * msPerDay"
    by (simp add: MakeDate_def algebra_simps)
  finally show ?thesis
    by (simp add: MakeDate_Day)
qed

lemma setDate_minus: "setDate t (getDate t - c) = t - c * msPerDay"
  using setDate_shift [of t "- c"] by simp

lemma month_norm:
  fixes q r :: int
  assumes "0 \<le> r" and "r < 12"
  shows "(12 * q + r) div 12 = q" and "(12 * q + r) mod 12 = r"
  using assms by (simp_all add: div_pos_pos_trivial)

lemma MakeDay_norm:
  assumes "0 \<le> r" and "r < 12"
  shows "MakeDay y (12 * q + r) d =
           DayFromYear (y + q) + monthStarts (InLeapYear (y + q)) ! nat r + d - 1"
  using month_norm [OF assms, of q] by (simp add: MakeDay_def Let_def)

lemma MakeDay_next_month: "MakeDay y m d < MakeDay y (m + 1) d"
proof -
  define q where "q = m div 12"
  define r where "r = m mod 12"
  have m: "m = 12 * q + r" and r: "0 \<le> r" "r < 12"
    by (simp_all add: q_def r_def)
  have cur: "MakeDay y m d = DayFromYear (y + q) + monthStarts (InLeapYear (y + q)) ! nat r + d - 1"
    unfolding m by (rule MakeDay_norm [OF r])
  show ?thesis
  proof (cases "r = 11")
    case True
    have e: "m + 1 = 12 * (q + 1) + 0"
      using m True by simp
    have "MakeDay y (m + 1) d = DayFromYear (y + (q + 1))
        + monthStarts (InLeapYear (y + (q + 1))) ! nat 0 + d - 1"
      unfolding e by (rule MakeDay_norm) simp_all
    then have nxt: "MakeDay y (m + 1) d = DayFromYear (y + q + 1) + d - 1"
      by (simp add: monthStarts_def Let_def add.assoc)
    have "monthStarts (InLeapYear (y + q)) ! nat r = 334 + (if InLeapYear (y + q) then 1 else 0)"
      using True by (simp add: monthStarts_def Let_def)
    with cur nxt DayFromYear_step [of "y + q"] show ?thesis
      by (simp split: if_splits)
  next
    case False
    with r have r10: "r + 1 < 12" "0 \<le> r + 1"
      by simp_all
    have e: "m + 1 = 12 * q + (r + 1)"
      using m by simp
    have nxt: "MakeDay y (m + 1) d =
        DayFromYear (y + q) + monthStarts (InLeapYear (y + q)) ! nat (r + 1) + d - 1"
      unfolding e by (rule MakeDay_norm [OF r10(2) r10(1)])
    from r r10 have "r = 0 \<or> r = 1 \<or> r = 2 \<or> r = 3 \<or> r = 4 \<or> r = 5 \<or> r = 6
      \<or> r = 7 \<or> r = 8 \<or> r = 9 \<or> r = 10"
      by arith
    then consider "r = 0" | "r = 1" | "r = 2" | "r = 3" | "r = 4" | "r = 5" | "r = 6"
      | "r = 7" | "r = 8" | "r = 9" | "r = 10"
      by blast
    then have "monthStarts (InLeapYear (y + q)) ! nat r
        < monthStarts (InLeapYear (y + q)) ! nat (r + 1)"
      by cases (simp_all add: monthStarts_def Let_def)
    with cur nxt show ?thesis
      by simp
  qed
qed

lemma MakeDay_earlier_month: "MakeDay y (m - int (Suc k)) d < MakeDay y (m - int k) d"
  using MakeDay_next_month [of y "m - int (Suc k)" d] by (simp add: algebra_simps)

lemma MakeDate_strict_mono: "d1 < d2 \<Longrightarrow> MakeDate d1 t < MakeDate d2 t"
  by (simp add: MakeDate_def msPerDay_def)

lemma DayFromYear_1970: "DayFromYear 1970 = 0"
  by (simp add: DayFromYear_def)

lemma DayFromYear_succ_bounds:
  "DayFromYear y + 365 \<le> DayFromYear (y + 1)" "DayFromYear (y + 1) \<le> DayFromYear y + 366"
  using DayFromYear_step [of y] by (simp_all split: if_splits)

lemma DayFromYear_lower: "1970 \<le> y \<Longrightarrow> 365 * (y - 1970) \<le> DayFromYear y"
proof (induction y rule: int_ge_induct)
  case base
  show ?case by (simp add: DayFromYear_1970)
next
  case (step i)
  with DayFromYear_succ_bounds(1) [of i] show ?case
    by simp
qed

lemma DayFromYear_mono: "y1 \<le> y2 \<Longrightarrow> DayFromYear y1 \<le> DayFromYear y2"
proof (induction y2 rule: int_ge_induct)
  case base
  show ?case by simp
next
  case (step i)
  with DayFromYear_succ_bounds(1) [of i] show ?case
    by simp
qed

lemma yearSearch_upper:
  "d < DayFromYear (y + 1) \<Longrightarrow> d < DayFromYear (yearSearch d y + 1)"
proof (induction d y rule: yearSearch.induct)
  case (1 d y)
  show ?case
  proof (cases "DayFromYear y \<le> d")
    case True
    with "1.prems" show ?thesis
      by (simp add: yearSearch.simps [of d y])
  next
    case False
    then have "d < DayFromYear (y - 1 + 1)"
      by simp
    with "1.IH" [OF False] False show ?thesis
      by (simp add: yearSearch.simps [of d y])
  qed
qed

lemma YearFromDay_bounds:
  "DayFromYear (YearFromDay d) \<le> d" "d < DayFromYear (YearFromDay d + 1)"
proof -
  show "DayFromYear (YearFromDay d) \<le> d"
    by (simp add: YearFromDay_def yearSearch_le)
  define y0 where "y0 = (if 0 \<le> d then 1970 + d div 365 else 1969)"
  have "d < DayFromYear (y0 + 1)"
  proof (cases "0 \<le> d")
    case True
    then have "365 * (1970 + d div 365 + 1 - 1970) \<le> DayFromYear (1970 + d div 365 + 1)"
      by (intro DayFromYear_lower) (simp add: pos_imp_zdiv_nonneg_iff)
    moreover have "d < 365 * (d div 365 + 1)"
      using div_less_bound [of 365 d "d div 365 + 1"] by (simp add: mult.commute)
    ultimately show ?thesis
      using True by (simp add: y0_def)
  next
    case False
    then show ?thesis
      by (simp add: y0_def DayFromYear_1970)
  qed
  then show "d < DayFromYear (YearFromDay d + 1)"
    unfolding YearFromDay_def y0_def [symmetric] by (rule yearSearch_upper)
qed

lemma YearFromDay_unique:
  assumes "DayFromYear y \<le> d" and "d < DayFromYear (y + 1)"
  shows "YearFromDay d = y"
proof (rule ccontr)
  assume "YearFromDay d \<noteq> y"
  then consider "YearFromDay d + 1 \<le> y" | "y + 1 \<le> YearFromDay d"
    by linarith
  then show False
  proof cases
    case 1
    then have "DayFromYear (YearFromDay d + 1) \<le> DayFromYear y"
      by (rule DayFromYear_mono)
    with assms YearFromDay_bounds(2) [of d] show False
      by linarith
  next
    case 2
    then have "DayFromYear (y + 1) \<le> DayFromYear (YearFromDay d)"
      by (rule DayFromYear_mono)
    with assms YearFromDay_bounds(1) [of d] show False
      by linarith
  qed
qed

lemma YearFromDay_mono: "d1 \<le> d2 \<Longrightarrow> YearFromDay d1 \<le> YearFromDay d2"
proof (rule ccontr)
  assume le: "d1 \<le> d2" and "\<not> YearFromDay d1 \<le> YearFromDay d2"
  then have "YearFromDay d2 + 1 \<le> YearFromDay d1"
    by simp
  then have "DayFromYear (YearFromDay d2 + 1) \<le> DayFromYear (YearFromDay d1)"
    by (rule DayFromYear_mono)
  with YearFromDay_bounds(2) [of d2] YearFromDay_bounds(1) [of d1] le show False
    by linarith
qed

lemma Day_mono: "t1 \<le> t2 \<Longrightarrow> Day t1 \<le> Day t2"
  by (simp add: Day_def msPerDay_def zdiv_mono1)

lemma TimeWithinDay_range: "0 \<le> TimeWithinDay t" "TimeWithinDay t < msPerDay"
  by (simp_all add: TimeWithinDay_def msPerDay_def)

lemma Day_MakeDate: "0 \<le> tm \<Longrightarrow> tm < msPerDay \<Longrightarrow> Day (MakeDate d tm) = d"
  unfolding Day_def MakeDate_def
  by (rule int_div_pos_eq [where r = tm]) (simp_all add: mult.commute)

lemma TimeWithinDay_MakeDate:
  "0 \<le> tm \<Longrightarrow> tm < msPerDay \<Longrightarrow> TimeWithinDay (MakeDate d tm) = tm"
  unfolding TimeWithinDay_def MakeDate_def
  by (rule int_mod_pos_eq [where q = d]) (simp_all add: mult.commute)

lemma getFullYear_mono: "t1 \<le> t2 \<Longrightarrow> getFullYear t1 \<le> getFullYear t2"
  unfolding getFullYear_def by (intro YearFromDay_mono Day_mono)

lemma filter_le_sorted:
  fixes xs :: "int list"
  shows "sorted xs \<Longrightarrow> filter (\<lambda>s. s \<le> v) xs = takeWhile (\<lambda>s. s \<le> v) xs"
proof (induction xs)
  case Nil
  show ?case by simp
next
  case (Cons x xs)
  show ?case
  proof (cases "x \<le> v")
    case True
    with Cons show ?thesis by simp
  next
    case False
    with Cons.prems have "\<forall>y \<in> set xs. \<not> y \<le> v"
      by auto
    then have "filter (\<lambda>s. s \<le> v) xs = []"
      by (simp add: filter_empty_conv)
    with False show ?thesis by simp
  qed
qed

lemma monthStarts_length: "length (monthStarts l) = 12"
  by (simp add: monthStarts_def Let_def)

lemma monthStarts_sorted: "sorted (monthStarts l)"
  by (simp add: monthStarts_def Let_def)

lemma monthStarts_first_last:
  "monthStarts l ! 0 = 0" "monthStarts l ! 11 = 334 + (if l then 1 else 0)"
  by (simp_all add: monthStarts_def Let_def)

lemma monthStarts_step:
  assumes "i < 11"
  shows "monthStarts l ! i < monthStarts l ! Suc i"
    and "monthStarts l ! Suc i - monthStarts l ! i \<le> 31"
proof -
  from assms have "i \<in> {0, 1, 2, 3, 4, 5, 6, 7, 8, 9, 10}"
    by (simp only: insert_iff empty_iff) arith
  then have "monthStarts l ! i < monthStarts l ! Suc i
      \<and> monthStarts l ! Suc i - monthStarts l ! i \<le> 31"
    by (auto simp add: monthStarts_def Let_def)
  then show "monthStarts l ! i < monthStarts l ! Suc i"
    and "monthStarts l ! Suc i - monthStarts l ! i \<le> 31"
    by simp_all
qed

lemma monthStarts_bounds: "i < 12 \<Longrightarrow> 0 \<le> monthStarts l ! i \<and> monthStarts l ! i \<le> 334 + (if l then 1 else 0)"
proof -
  assume i: "i < 12"
  have "monthStarts l ! 0 \<le> monthStarts l ! i"
    using i by (intro sorted_nth_mono monthStarts_sorted) (simp_all add: monthStarts_length)
  moreover have "monthStarts l ! i \<le> monthStarts l ! 11"
    using i by (intro sorted_nth_mono monthStarts_sorted) (simp_all add: monthStarts_length)
  ultimately show ?thesis
    by (simp add: monthStarts_first_last)
qed

text \<open>The number of month starts on or before a day of the year.\<close>

lemma month_count:
  fixes v :: int and l :: bool
  defines "c \<equiv> length (filter (\<lambda>s. s \<le> v) (monthStarts l))"
  assumes v: "0 \<le> v"
  shows "1 \<le> c" "c \<le> 12" "monthStarts l ! (c - 1) \<le> v" "c < 12 \<Longrightarrow> v < monthStarts l ! c"
proof -
  let ?P = "\<lambda>s. s \<le> v"
  have ct: "c = length (takeWhile ?P (monthStarts l))"
    by (simp add: c_def filter_le_sorted [OF monthStarts_sorted])
  obtain rest where hd: "monthStarts l = 0 # rest"
    by (simp add: monthStarts_def Let_def)
  show c1: "1 \<le> c"
    using v by (simp add: c_def hd)
  show c12: "c \<le> 12"
    using length_filter_le [of ?P "monthStarts l"] by (simp add: c_def monthStarts_length)
  have lt: "c - 1 < length (takeWhile ?P (monthStarts l))"
    using c1 ct by simp
  then have "takeWhile ?P (monthStarts l) ! (c - 1) \<in> set (takeWhile ?P (monthStarts l))"
    by (rule nth_mem)
  moreover have "takeWhile ?P (monthStarts l) ! (c - 1) = monthStarts l ! (c - 1)"
    using lt by (rule takeWhile_nth)
  ultimately have "monthStarts l ! (c - 1) \<in> set (takeWhile ?P (monthStarts l))"
    by simp
  then show "monthStarts l ! (c - 1) \<le> v"
    by (rule set_takeWhileD [THEN conjunct2])
  show "v < monthStarts l ! c" if "c < 12"
  proof -
    have "length (takeWhile ?P (monthStarts l)) < length (monthStarts l)"
      using that ct by (simp add: monthStarts_length)
    then have "\<not> ?P (monthStarts l ! length (takeWhile ?P (monthStarts l)))"
      by (rule nth_length_takeWhile)
    then show ?thesis
      by (simp add: ct)
  qed
qed

lemma month_count_unique:
  fixes v :: int
  assumes r: "r < 12" and lo: "monthStarts l ! r \<le> v"
    and hi: "r < 11 \<Longrightarrow> v < monthStarts l ! Suc r"
  shows "length (filter (\<lambda>s. s \<le> v) (monthStarts l)) = Suc r"
proof -
  let ?P = "\<lambda>s. s \<le> v"
  have "takeWhile ?P (monthStarts l) = take (Suc r) (monthStarts l)"
  proof (rule takeWhile_eq_take_P_nth)
    fix i
    assume "i < Suc r" "i < length (monthStarts l)"
    then have "monthStarts l ! i \<le> monthStarts l ! r"
      using r by (intro sorted_nth_mono monthStarts_sorted) (simp_all add: monthStarts_length)
    with lo show "monthStarts l ! i \<le> v"
      by simp
  next
    assume "Suc r < length (monthStarts l)"
    then have "r < 11"
      by (simp add: monthStarts_length)
    with hi show "\<not> monthStarts l ! Suc r \<le> v"
      by simp
  qed
  then show ?thesis
    using r by (simp add: filter_le_sorted [OF monthStarts_sorted] monthStarts_length)
qed

lemma DayWithinYear_range:
  "0 \<le> DayWithinYear d" "DayWithinYear d < 365 + (if InLeapYear (YearFromDay d) then 1 else 0)"
  using YearFromDay_bounds [of d] DayFromYear_step [of "YearFromDay d"]
  by (simp_all add: DayWithinYear_def split: if_splits)

lemma DateFromDay_range: "1 \<le> DateFromDay d" "DateFromDay d \<le> 31"
proof -
  define l where "l = InLeapYear (YearFromDay d)"
  define v where "v = DayWithinYear d"
  define c where "c = length (filter (\<lambda>s. s \<le> v) (monthStarts l))"
  have v: "0 \<le> v" "v < 365 + (if l then 1 else 0)"
    using DayWithinYear_range [of d] by (simp_all add: v_def l_def)
  note mc = month_count [OF v(1), of l, folded c_def]
  have m: "nat (MonthFromDay d) = c - 1"
    by (simp add: MonthFromDay_def c_def v_def l_def)
  have D: "DateFromDay d = v - monthStarts l ! (c - 1) + 1"
    by (simp add: DateFromDay_def m v_def l_def)
  show "1 \<le> DateFromDay d"
    using mc(3) by (simp add: D)
  show "DateFromDay d \<le> 31"
  proof (cases "c < 12")
    case True
    with mc(1) have "c - 1 < 11" "Suc (c - 1) = c"
      by simp_all
    with monthStarts_step(2) [of "c - 1" l] mc(4) [OF True] show ?thesis
      by (simp add: D)
  next
    case False
    with mc(2) have "c = 12"
      by simp
    with v(2) show ?thesis
      by (simp add: D monthStarts_first_last split: if_splits)
  qed
qed

lemma getDate_range: "1 \<le> getDate t" "getDate t \<le> 31"
  by (simp_all add: getDate_def DateFromDay_range)

lemma getMonth_range: "0 \<le> getMonth t" "getMonth t \<le> 11"
  using MonthFromDay_range [of "Day t"] by (simp_all add: getMonth_def)

lemma monthStarts_10: "i \<le> 10 \<Longrightarrow> monthStarts l ! i \<le> 304 + (if l then 1 else 0)"
proof -
  assume "i \<le> 10"
  then have "monthStarts l ! i \<le> monthStarts l ! 10"
    by (intro sorted_nth_mono monthStarts_sorted) (simp_all add: monthStarts_length)
  then show ?thesis
    by (simp add: monthStarts_def Let_def)
qed

lemma MakeDay_plain:
  assumes "0 \<le> m" and "m \<le> 11"
  shows "MakeDay y m dt = DayFromYear y + monthStarts (InLeapYear y) ! nat m + dt - 1"
  using MakeDay_norm [of m y 0 dt] assms by simp

lemma YearFromDay_MakeDay:
  assumes m: "0 \<le> m" "m \<le> 11" and dt: "1 \<le> dt" "dt \<le> 31"
  shows "YearFromDay (MakeDay y m dt) = y"
proof (rule YearFromDay_unique)
  define l where "l = InLeapYear y"
  have e: "MakeDay y m dt = DayFromYear y + monthStarts l ! nat m + dt - 1"
    unfolding l_def by (rule MakeDay_plain [OF m])
  have b: "0 \<le> monthStarts l ! nat m" "monthStarts l ! nat m \<le> 334 + (if l then 1 else 0)"
    using monthStarts_bounds [of "nat m" l] m by simp_all
  show "DayFromYear y \<le> MakeDay y m dt"
    using b dt by (simp add: e)
  have "monthStarts l ! nat m + dt - 1 < 365 + (if l then 1 else 0)"
  proof (cases "m = 11")
    case True
    with dt show ?thesis
      by (simp add: monthStarts_first_last)
  next
    case False
    with m have "nat m \<le> 10"
      by simp
    from monthStarts_10 [OF this, of l] dt show ?thesis
      by (simp split: if_splits)
  qed
  then show "MakeDay y m dt < DayFromYear (y + 1)"
    using DayFromYear_step [of y] by (simp add: e l_def split: if_splits)
qed

lemma MonthFromDay_first_of_month:
  assumes m: "0 \<le> m" "m \<le> 11"
  shows "MonthFromDay (MakeDay y m 1) = m"
proof -
  define l where "l = InLeapYear y"
  have y: "YearFromDay (MakeDay y m 1) = y"
    by (rule YearFromDay_MakeDay [OF m]) simp_all
  have e: "MakeDay y m 1 = DayFromYear y + monthStarts l ! nat m"
    using MakeDay_plain [OF m, of y 1] by (simp add: l_def)
  have "DayWithinYear (MakeDay y m 1) = MakeDay y m 1 - DayFromYear y"
    by (simp only: DayWithinYear_def y)
  then have v: "DayWithinYear (MakeDay y m 1) = monthStarts l ! nat m"
    by (simp add: e)
  have "length (filter (\<lambda>s. s \<le> monthStarts l ! nat m) (monthStarts l)) = Suc (nat m)"
  proof (rule month_count_unique)
    show "nat m < 12"
      using m by simp
    show "monthStarts l ! nat m \<le> monthStarts l ! nat m"
      by simp
    show "monthStarts l ! nat m < monthStarts l ! Suc (nat m)" if "nat m < 11"
      using that by (rule monthStarts_step(1))
  qed
  then show ?thesis
    using m by (simp add: MonthFromDay_def y v l_def)
qed

lemma filter_count_mono:
  assumes "\<forall>v \<in> set vs. before v \<longrightarrow> before' v"
  shows "length (filter before vs) \<le> length (filter before' vs)"
  using assms by (induction vs) simp_all

text \<open>The month index of a day: months counted from year 0.\<close>

lemma month_index_mono:
  assumes "d1 \<le> d2"
  shows "12 * YearFromDay d1 + MonthFromDay d1 \<le> 12 * YearFromDay d2 + MonthFromDay d2"
proof (cases "YearFromDay d1 = YearFromDay d2")
  case True
  then have "DayWithinYear d1 \<le> DayWithinYear d2"
    using assms by (simp add: DayWithinYear_def)
  then have "length (filter (\<lambda>s. s \<le> DayWithinYear d1) (monthStarts (InLeapYear (YearFromDay d2))))
      \<le> length (filter (\<lambda>s. s \<le> DayWithinYear d2) (monthStarts (InLeapYear (YearFromDay d2))))"
    by (intro filter_count_mono) simp
  then show ?thesis
    using True by (simp add: MonthFromDay_def)
next
  case False
  with YearFromDay_mono [OF assms] have "YearFromDay d1 + 1 \<le> YearFromDay d2"
    by simp
  with MonthFromDay_range [of d1] MonthFromDay_range [of d2] show ?thesis
    by linarith
qed

lemma month_index_first_of_month:
  "12 * YearFromDay (MakeDay y m 1) + MonthFromDay (MakeDay y m 1) = 12 * y + m"
proof -
  define q where "q = m div 12"
  define r where "r = m mod 12"
  have m: "m = 12 * q + r" and r: "0 \<le> r" "r < 12"
    by (simp_all add: q_def r_def)
  have "MakeDay y m 1 = MakeDay (y + q) r 1"
    using MakeDay_norm [OF r, of y q 1] MakeDay_norm [OF r, of "y + q" 0 1]
    by (simp add: m)
  moreover have "YearFromDay (MakeDay (y + q) r 1) = y + q"
    using r by (intro YearFromDay_MakeDay) simp_all
  moreover have "MonthFromDay (MakeDay (y + q) r 1) = r"
    using r by (intro MonthFromDay_first_of_month) simp_all
  ultimately show ?thesis
    by (simp add: m)
qed

lemma MakeDay_date_mono: "d1 \<le> d2 \<Longrightarrow> MakeDay y m d1 \<le> MakeDay y m d2"
  by (simp add: MakeDay_def Let_def)

lemma getters_MakeDate:
  assumes "0 \<le> tm" and "tm < msPerDay"
  shows "getFullYear (MakeDate d tm) = YearFromDay d"
    and "getMonth (MakeDate d tm) = MonthFromDay d"
    and "getDate (MakeDate d tm) = DateFromDay d"
  by (simp_all add: getFullYear_def getMonth_def getDate_def Day_MakeDate [OF assms])

lemma MonthFromDay_january:
  assumes dt: "1 \<le> dt" "dt \<le> 31"
  shows "MonthFromDay (MakeDay y 0 dt) = 0"
proof -
  define l where "l = InLeapYear y"
  have y: "YearFromDay (MakeDay y 0 dt) = y"
    by (rule YearFromDay_MakeDay [OF _ _ dt]) simp_all
  have e: "MakeDay y 0 dt = DayFromYear y + dt - 1"
    using MakeDay_plain [of 0 y dt] by (simp add: monthStarts_first_last)
  have "DayWithinYear (MakeDay y 0 dt) = MakeDay y 0 dt - DayFromYear y"
    by (simp only: DayWithinYear_def y)
  then have v: "DayWithinYear (MakeDay y 0 dt) = dt - 1"
    by (simp add: e)
  have "length (filter (\<lambda>s. s \<le> dt - 1) (monthStarts l)) = Suc 0"
  proof (rule month_count_unique)
    show "(0::nat) < 12"
      by simp
    show "monthStarts l ! 0 \<le> dt - 1"
      using dt by (simp add: monthStarts_first_last)
    show "dt - 1 < monthStarts l ! Suc 0"
      using dt by (simp add: monthStarts_def Let_def)
  qed
  then show ?thesis
    by (simp add: MonthFromDay_def y v l_def)
qed

lemma YearFromDay_DayFromYear: "YearFromDay (DayFromYear y) = y"
  using DayFromYear_succ_bounds(1) [of y] by (intro YearFromDay_unique) simp_all

section \<open>Properties of the bucketing\<close>

text \<open>
  C3 at the end of the window. In the real-data chart with the daily range, a sale dated
  exactly \<open>now\<close> passes the chart's window test, yet its period index is 30, one past the
  last of the 30 buckets, and the bounds check drops it: every bucket exists, every bucket's
  income is 0, and the income of the transactions within the window is 100.
\<close>

theorem daily_bucketing_drops_transaction_at_now:
  "inWindow noon daily saleAtNoon
   \<and> periodIndex day (fst (chartWindow noon daily)) (tdate saleAtNoon) = 30
   \<and> map p_income (bucketTransactions noon daily [saleAtNoon]) = replicate 30 0
   \<and> sum_list (map p_income (bucketTransactions noon daily [saleAtNoon])) = 0
   \<and> incomeOf (filter (inWindow noon daily) [saleAtNoon]) = 100"
  by code_simp

lemma chartWindow_daily: "chartWindow now daily = (now - 30 * msPerDay, 30, day)"
  using setDate_shift [of now "- 30"] by (simp add: chartWindow_def)

lemma chartWindow_weekly: "chartWindow now weekly = (now - 56 * msPerDay, 8, week)"
  using setDate_shift [of now "- 56"] by (simp add: chartWindow_def)

lemma sum_list_update_rat:
  fixes xs :: "rat list"
  shows "k < length xs \<Longrightarrow> sum_list (xs[k := x]) = sum_list xs - xs ! k + x"
proof (induction xs arbitrary: k)
  case Nil
  then show ?case by simp
next
  case (Cons y ys)
  then show ?case
    by (cases k) simp_all
qed

lemma processTransaction_length:
  "length (processTransaction now s n pt pd t) = length pd"
  by (simp add: processTransaction_def Let_def)

lemma processTransaction_income_nth:
  assumes "length pd = n" and "j < n"
  shows "p_income (processTransaction now s n pt pd t ! j) =
           p_income (pd ! j)
           + (if ttype t = income \<and> counted now s n pt t \<and> nat (periodIndex pt s (tdate t)) = j
              then amount t else 0)"
proof (cases "counted now s n pt t")
  case False
  then show ?thesis
    by (auto simp: processTransaction_def Let_def counted_def)
next
  case True
  then have i: "nat (periodIndex pt s (tdate t)) < length pd"
    using assms by (auto simp: counted_def nat_less_iff)
  show ?thesis
  proof (cases "ttype t = income")
    case inc: True
    from True i have "processTransaction now s n pt pd t =
        pd[nat (periodIndex pt s (tdate t)) :=
             (pd ! nat (periodIndex pt s (tdate t)))
               \<lparr>p_income := p_income (pd ! nat (periodIndex pt s (tdate t))) + amount t\<rparr>]"
      using inc assms by (simp add: processTransaction_def Let_def counted_def)
    then show ?thesis
      using True inc assms i by (simp add: nth_list_update)
  next
    case exp: False
    from True i have "processTransaction now s n pt pd t =
        pd[nat (periodIndex pt s (tdate t)) :=
             (pd ! nat (periodIndex pt s (tdate t)))
               \<lparr>p_expense := p_expense (pd ! nat (periodIndex pt s (tdate t))) + amount t\<rparr>]"
      using exp assms by (simp add: processTransaction_def Let_def counted_def)
    then show ?thesis
      using True exp assms i by (simp add: nth_list_update)
  qed
qed

lemma foldl_processTransaction_length:
  "length (foldl (processTransaction now s n pt) pd txs) = length pd"
  by (induction txs arbitrary: pd) (simp_all add: processTransaction_length)

lemma foldl_processTransaction_income_nth:
  assumes "length pd = n" and "j < n"
  shows "p_income (foldl (processTransaction now s n pt) pd txs ! j) =
           p_income (pd ! j)
           + incomeOf (filter (\<lambda>t. counted now s n pt t \<and> nat (periodIndex pt s (tdate t)) = j) txs)"
  using assms
proof (induction txs arbitrary: pd)
  case Nil
  then show ?case
    by (simp add: incomeOf_def)
next
  case (Cons t txs)
  have len: "length (processTransaction now s n pt pd t) = n"
    using Cons.prems by (simp add: processTransaction_length)
  have "p_income (foldl (processTransaction now s n pt) pd (t # txs) ! j) =
      p_income (foldl (processTransaction now s n pt) (processTransaction now s n pt pd t) txs ! j)"
    by simp
  also have "\<dots> = p_income (processTransaction now s n pt pd t ! j)
      + incomeOf (filter (\<lambda>t. counted now s n pt t \<and> nat (periodIndex pt s (tdate t)) = j) txs)"
    using Cons.IH [OF len Cons.prems(2)] .
  also have "p_income (processTransaction now s n pt pd t ! j) =
      p_income (pd ! j)
      + (if ttype t = income \<and> counted now s n pt t \<and> nat (periodIndex pt s (tdate t)) = j
         then amount t else 0)"
    using processTransaction_income_nth [OF Cons.prems] .
  finally show ?case
    by (simp add: incomeOf_def)
qed

lemma processTransaction_income_total:
  assumes "length pd = n"
  shows "sum_list (map p_income (processTransaction now s n pt pd t)) =
           sum_list (map p_income pd)
           + (if ttype t = income \<and> counted now s n pt t then amount t else 0)"
proof (cases "counted now s n pt t \<and> ttype t = income")
  case False
  then show ?thesis
    using assms
    by (auto simp: processTransaction_def Let_def counted_def map_update sum_list_update_rat)
next
  case True
  then have i: "nat (periodIndex pt s (tdate t)) < length pd"
    using assms by (auto simp: counted_def nat_less_iff)
  from True i have "processTransaction now s n pt pd t =
      pd[nat (periodIndex pt s (tdate t)) :=
           (pd ! nat (periodIndex pt s (tdate t)))
             \<lparr>p_income := p_income (pd ! nat (periodIndex pt s (tdate t))) + amount t\<rparr>]"
    using assms by (simp add: processTransaction_def Let_def counted_def)
  then show ?thesis
    using True i by (simp add: map_update sum_list_update_rat)
qed

lemma foldl_processTransaction_income_total:
  assumes "length pd = n"
  shows "sum_list (map p_income (foldl (processTransaction now s n pt) pd txs)) =
           sum_list (map p_income pd) + incomeOf (filter (counted now s n pt) txs)"
  using assms
proof (induction txs arbitrary: pd)
  case Nil
  then show ?case
    by (simp add: incomeOf_def)
next
  case (Cons t txs)
  have len: "length (processTransaction now s n pt pd t) = n"
    using Cons.prems by (simp add: processTransaction_length)
  show ?case
    using Cons.IH [OF len] processTransaction_income_total [OF Cons.prems, of now s pt t]
    by (simp add: incomeOf_def)
qed

lemma counted_fixed_width:
  assumes w: "0 < w" and idx: "\<And>u. periodIndex pt s u = (u - s) div w"
    and now: "now = s + int n * w"
  shows "counted now s n pt t \<longleftrightarrow> s \<le> tdate t \<and> tdate t < now"
proof -
  have a: "(tdate t - s) div w < int n \<longleftrightarrow> tdate t < now"
    using div_less_bound [OF w, of "tdate t - s" "int n"] now by (simp add: algebra_simps)
  have b: "0 \<le> (tdate t - s) div w \<longleftrightarrow> s \<le> tdate t"
    using le_div_bound [OF w, of 0 "tdate t - s"] by simp
  show ?thesis
    unfolding counted_def idx a b by auto
qed

lemma counted_bucket_fixed_width:
  assumes w: "0 < w" and idx: "\<And>u. periodIndex pt s u = (u - s) div w"
    and now: "now = s + int n * w" and j: "j < n"
  shows "counted now s n pt t \<and> nat (periodIndex pt s (tdate t)) = j
         \<longleftrightarrow> s + int j * w \<le> tdate t \<and> tdate t < s + (int j + 1) * w"
proof -
  define q where "q = (tdate t - s) div w"
  have lo: "int j \<le> q \<longleftrightarrow> s + int j * w \<le> tdate t"
    using le_div_bound [OF w, of "int j" "tdate t - s"] by (simp add: q_def algebra_simps)
  have hi: "q < int j + 1 \<longleftrightarrow> tdate t < s + (int j + 1) * w"
    using div_less_bound [OF w, of "tdate t - s" "int j + 1"] by (simp add: q_def algebra_simps)
  have c: "counted now s n pt t \<longleftrightarrow> 0 \<le> q \<and> q < int n"
    using counted_fixed_width [OF w idx now, of t] div_less_bound [OF w, of "tdate t - s" "int n"]
      le_div_bound [OF w, of 0 "tdate t - s"] now
    by (simp add: q_def algebra_simps)
  have "counted now s n pt t \<and> nat q = j \<longleftrightarrow> int j \<le> q \<and> q < int j + 1"
    using c j by auto
  then show ?thesis
    unfolding lo hi by (simp add: idx q_def)
qed

lemma bucketTransactions_fixed_width:
  assumes cw: "chartWindow now timeRange = (s, n, pt)"
    and w: "0 < w" and idx: "\<And>u. periodIndex pt s u = (u - s) div w"
    and now: "now = s + int n * w"
  shows "length (bucketTransactions now timeRange txs) = n"
    and "sum_list (map p_income (bucketTransactions now timeRange txs))
          = incomeOf (filter (\<lambda>t. s \<le> tdate t \<and> tdate t < now) txs)"
    and "j < n \<Longrightarrow> p_income (bucketTransactions now timeRange txs ! j)
          = incomeOf (filter (\<lambda>t. s + int j * w \<le> tdate t \<and> tdate t < s + (int j + 1) * w) txs)"
proof -
  have b: "bucketTransactions now timeRange txs
      = foldl (processTransaction now s n pt) (initPeriods s n pt) txs"
    by (simp add: bucketTransactions_def cw)
  have len: "length (initPeriods s n pt) = n"
    by (simp add: initPeriods_def)
  have zero: "sum_list (map p_income (initPeriods s n pt)) = 0"
    by (simp add: initPeriods_def comp_def)
  show "length (bucketTransactions now timeRange txs) = n"
    by (simp add: b foldl_processTransaction_length len)
  have c: "counted now s n pt = (\<lambda>t. s \<le> tdate t \<and> tdate t < now)"
    using counted_fixed_width [OF w idx now] by (intro ext)
  show "sum_list (map p_income (bucketTransactions now timeRange txs))
          = incomeOf (filter (\<lambda>t. s \<le> tdate t \<and> tdate t < now) txs)"
    unfolding b foldl_processTransaction_income_total [OF len] zero c by simp
  show "p_income (bucketTransactions now timeRange txs ! j)
          = incomeOf (filter (\<lambda>t. s + int j * w \<le> tdate t \<and> tdate t < s + (int j + 1) * w) txs)"
    if j: "j < n"
  proof -
    have cj: "(\<lambda>t. counted now s n pt t \<and> nat (periodIndex pt s (tdate t)) = j)
        = (\<lambda>t. s + int j * w \<le> tdate t \<and> tdate t < s + (int j + 1) * w)"
      using counted_bucket_fixed_width [OF w idx now j] by (intro ext)
    have z: "p_income (initPeriods s n pt ! j) = 0"
      using j by (simp add: initPeriods_def)
    show ?thesis
      unfolding b foldl_processTransaction_income_nth [OF len j] cj z by simp
  qed
qed

text \<open>
  Everywhere else in the window the daily and weekly buckets are a partition: the window
  starts 30 days (8 weeks) before \<open>now\<close>, bucket \<open>j\<close> holds exactly the income dated
  in the \<open>j\<close>-th day (week) from the start, and the bucket incomes sum to the income dated
  from the start up to, but not including, \<open>now\<close>.
\<close>

theorem chart_buckets_partition_half_open_window:
  "(let pd = bucketTransactions now daily txs; s = now - 30 * msPerDay
    in chartWindow now daily = (s, 30, day)
       \<and> length pd = 30
       \<and> (\<forall>j < 30. p_income (pd ! j) =
             incomeOf (filter (\<lambda>t. s + int j * msPerDay \<le> tdate t
                                   \<and> tdate t < s + (int j + 1) * msPerDay) txs))
       \<and> sum_list (map p_income pd) = incomeOf (filter (\<lambda>t. s \<le> tdate t \<and> tdate t < now) txs))
   \<and> (let pd = bucketTransactions now weekly txs; s = now - 56 * msPerDay
      in chartWindow now weekly = (s, 8, week)
       \<and> length pd = 8
       \<and> (\<forall>j < 8. p_income (pd ! j) =
             incomeOf (filter (\<lambda>t. s + int j * (7 * msPerDay) \<le> tdate t
                                   \<and> tdate t < s + (int j + 1) * (7 * msPerDay)) txs))
       \<and> sum_list (map p_income pd) = incomeOf (filter (\<lambda>t. s \<le> tdate t \<and> tdate t < now) txs))"
proof -
  have d: "periodIndex day s u = (u - s) div msPerDay" for s u
    by (simp add: periodIndex_def msPerDay_def)
  have wk: "periodIndex week s u = (u - s) div (7 * msPerDay)" for s u
    by (simp add: periodIndex_def msPerDay_def)
  have pd: "0 < msPerDay" and pw: "0 < 7 * msPerDay"
    by (simp_all add: msPerDay_def)
  have nd: "now = (now - 30 * msPerDay) + int 30 * msPerDay"
    and nw: "now = (now - 56 * msPerDay) + int 8 * (7 * msPerDay)"
    by simp_all
  note D = bucketTransactions_fixed_width [OF chartWindow_daily pd d nd, where txs = txs]
  note W = bucketTransactions_fixed_width [OF chartWindow_weekly pw wk nw, where txs = txs]
  show ?thesis
    unfolding Let_def using D W chartWindow_daily chartWindow_weekly by blast
qed

theorem chart_buckets_partition_half_open_window_witness:
  "p_income (bucketTransactions noon daily [saleAtNoon, tx ''8'' 60 income (noon - 1)] ! 29) = 60
   \<and> sum_list (map p_income (bucketTransactions noon daily
         [saleAtNoon, tx ''8'' 60 income (noon - 1)])) = 60
   \<and> sum_list (map p_income (bucketTransactions noon weekly
         [saleAtNoon, tx ''8'' 60 income (noon - 1)])) = 60"
proof -
  let ?txs = "[saleAtNoon, tx ''8'' 60 income (noon - 1)]"
  note T = chart_buckets_partition_half_open_window [of noon ?txs, unfolded Let_def]
  from T have a: "p_income (bucketTransactions noon daily ?txs ! 29) =
      incomeOf (filter (\<lambda>t. noon - 30 * msPerDay + int 29 * msPerDay \<le> tdate t
                            \<and> tdate t < noon - 30 * msPerDay + (int 29 + 1) * msPerDay) ?txs)"
    by simp
  from T have b: "sum_list (map p_income (bucketTransactions noon daily ?txs)) =
      incomeOf (filter (\<lambda>t. noon - 30 * msPerDay \<le> tdate t \<and> tdate t < noon) ?txs)"
    by simp
  from T have c: "sum_list (map p_income (bucketTransactions noon weekly ?txs)) =
      incomeOf (filter (\<lambda>t. noon - 56 * msPerDay \<le> tdate t \<and> tdate t < noon) ?txs)"
    by simp
  show ?thesis
    unfolding a b c
    by (simp add: incomeOf_def saleAtNoon_def tx_def noon_def msPerDay_def)
qed

lemma frameBoundary_now: "frameBoundary now frame 0 = now"
proof -
  have "setDate now (getDate now + 0) = now"
    using setDate_shift [of now 0] by simp
  moreover have "setMonth now (getMonth now) = now"
    using MakeDay_inverse [of "Day now" 0]
    by (simp add: setMonth_def getFullYear_def getMonth_def getDate_def MakeDate_Day)
  ultimately show ?thesis
    by (simp add: frameBoundary_def)
qed

lemma frameBoundary_decreasing: "frameBoundary now frame (Suc k) < frameBoundary now frame k"
proof (cases frame)
  case frame_weekly
  have "frameBoundary now frame (Suc k) = now - int (Suc k) * 7 * msPerDay"
    "frameBoundary now frame k = now - int k * 7 * msPerDay"
    unfolding frameBoundary_def frame_weekly setDate_minus by (simp_all only: refl if_True)
  then show ?thesis
    by (simp add: msPerDay_def)
next
  case frame_monthly
  have "MakeDay (getFullYear now) (getMonth now - int (Suc k)) (getDate now)
      < MakeDay (getFullYear now) (getMonth now - int k) (getDate now)"
    by (rule MakeDay_earlier_month)
  then show ?thesis
    using frame_monthly by (simp add: frameBoundary_def setMonth_def MakeDate_strict_mono)
next
  case frame_quarterly
  let ?F = "\<lambda>m. MakeDay (getFullYear now) m (getDate now)"
  define m where "m = getMonth now - int (Suc k) * 3"
  have "?F m < ?F (m + 1)" "?F (m + 1) < ?F (m + 1 + 1)" "?F (m + 1 + 1) < ?F (m + 1 + 1 + 1)"
    by (rule MakeDay_next_month)+
  then have "?F m < ?F (m + 1 + 1 + 1)"
    by linarith
  moreover have "m + 1 + 1 + 1 = getMonth now - int k * 3"
    by (simp add: m_def)
  ultimately have "?F (getMonth now - int (Suc k) * 3) < ?F (getMonth now - int k * 3)"
    by (simp add: m_def)
  then show ?thesis
    using frame_quarterly by (simp add: frameBoundary_def setMonth_def MakeDate_strict_mono)
qed

lemma incomeOf_split:
  fixes a b c :: int
  assumes "a \<le> b" and "b \<le> c"
  shows "incomeOf (filter (\<lambda>t. a \<le> tdate t \<and> tdate t < b) txs)
         + incomeOf (filter (\<lambda>t. b \<le> tdate t \<and> tdate t < c) txs)
         = incomeOf (filter (\<lambda>t. a \<le> tdate t \<and> tdate t < c) txs)"
  using assms by (induction txs) (auto simp: incomeOf_def)

lemma periods_income_sum:
  fixes B :: "nat \<Rightarrow> int"
  assumes dec: "\<And>k. B (Suc k) \<le> B k"
  shows "sum_list (map (\<lambda>i. incomeOf (filter (\<lambda>t. B (Suc i) \<le> tdate t \<and> tdate t < B i) txs))
            (rev [0..<n]))
         = incomeOf (filter (\<lambda>t. B n \<le> tdate t \<and> tdate t < B 0) txs)"
proof (induction n)
  case 0
  have "filter (\<lambda>t. B 0 \<le> tdate t \<and> tdate t < B 0) txs = []"
    by (induction txs) auto
  then show ?case
    by (simp add: incomeOf_def)
next
  case (Suc n)
  have "B n \<le> B 0"
    using lift_Suc_antimono_le [of B 0 n] dec by simp
  with incomeOf_split [OF dec [of n] this, of txs] Suc.IH show ?case
    by simp
qed

lemma exactly_one_period:
  fixes B :: "nat \<Rightarrow> int"
  assumes dec: "\<And>k. B (Suc k) \<le> B k" and lo: "B n \<le> x" and hi: "x < B 0"
  shows "\<exists>!i. i < n \<and> B (Suc i) \<le> x \<and> x < B i"
proof -
  have anti: "i \<le> j \<Longrightarrow> B j \<le> B i" for i j
    using lift_Suc_antimono_le [of B i j] dec by simp
  have ex: "\<exists>i. i < n \<and> B (Suc i) \<le> x \<and> x < B i"
    using lo
  proof (induction n)
    case 0
    with hi show ?case by simp
  next
    case (Suc n)
    show ?case
    proof (cases "x < B n")
      case True
      with Suc.prems show ?thesis by auto
    next
      case False
      then have "B n \<le> x" by simp
      with Suc.IH obtain i where "i < n \<and> B (Suc i) \<le> x \<and> x < B i"
        by blast
      then show ?thesis
        using less_Suc_eq by blast
    qed
  qed
  have uniq: "i = j" if i: "B (Suc i) \<le> x \<and> x < B i" and j: "B (Suc j) \<le> x \<and> x < B j" for i j
  proof (rule ccontr)
    assume "i \<noteq> j"
    then consider "Suc i \<le> j" | "Suc j \<le> i"
      by linarith
    then show False
    proof cases
      case 1
      with anti [of "Suc i" j] i j show False by linarith
    next
      case 2
      with anti [of "Suc j" i] i j show False by linarith
    qed
  qed
  from ex uniq show ?thesis
    by blast
qed

lemma framePeriod_income:
  "a_income (framePeriod txs frame now i) =
     incomeOf (filter (\<lambda>t. frameBoundary now frame (Suc i) \<le> tdate t
                           \<and> tdate t < frameBoundary now frame i) txs)"
  by (simp add: framePeriod_def Let_def incomeOf_def foldl_plus_sum_list)

text \<open>
  The advanced chart's periods are half-open and adjacent for every frame: period \<open>i\<close>
  back from \<open>now\<close> holds exactly the income dated from boundary \<open>i + 1\<close> up to boundary
  \<open>i\<close>, every instant from the oldest boundary up to \<open>now\<close> lies in exactly one
  period, and the period incomes sum to the income dated in that range.
\<close>

theorem processTransactionData_partition:
  "length (processTransactionData txs frame now) = framePeriods frame
   \<and> frameBoundary now frame 0 = now
   \<and> (\<forall>i < framePeriods frame.
         a_income (processTransactionData txs frame now ! (framePeriods frame - 1 - i)) =
           incomeOf (filter (\<lambda>t. frameBoundary now frame (Suc i) \<le> tdate t
                                 \<and> tdate t < frameBoundary now frame i) txs))
   \<and> (\<forall>x. frameBoundary now frame (framePeriods frame) \<le> x \<and> x < now \<longrightarrow>
         (\<exists>!i. i < framePeriods frame
               \<and> frameBoundary now frame (Suc i) \<le> x \<and> x < frameBoundary now frame i))
   \<and> sum_list (map a_income (processTransactionData txs frame now)) =
       incomeOf (filter (\<lambda>t. frameBoundary now frame (framePeriods frame) \<le> tdate t
                             \<and> tdate t < now) txs)"
proof -
  let ?n = "framePeriods frame"
  let ?B = "frameBoundary now frame"
  have dec: "?B (Suc k) \<le> ?B k" for k
    using frameBoundary_decreasing [of now frame k] by simp
  have len: "length (processTransactionData txs frame now) = ?n"
    by (simp add: processTransactionData_def)
  have nth: "a_income (processTransactionData txs frame now ! (?n - 1 - i)) =
      incomeOf (filter (\<lambda>t. ?B (Suc i) \<le> tdate t \<and> tdate t < ?B i) txs)" if "i < ?n" for i
  proof -
    have "rev [0..<?n] ! (?n - 1 - i) = i"
      using that by (simp add: rev_nth)
    then show ?thesis
      using that by (simp add: processTransactionData_def framePeriod_income)
  qed
  have one: "\<exists>!i. i < ?n \<and> ?B (Suc i) \<le> x \<and> x < ?B i" if "?B ?n \<le> x \<and> x < now" for x
    using exactly_one_period [of ?B ?n x] dec that by (simp add: frameBoundary_now)
  have "map a_income (processTransactionData txs frame now)
      = map (\<lambda>i. incomeOf (filter (\<lambda>t. ?B (Suc i) \<le> tdate t \<and> tdate t < ?B i) txs)) (rev [0..<?n])"
    by (simp add: processTransactionData_def framePeriod_income comp_def)
  then have total: "sum_list (map a_income (processTransactionData txs frame now)) =
      incomeOf (filter (\<lambda>t. ?B ?n \<le> tdate t \<and> tdate t < now) txs)"
    using periods_income_sum [of ?B txs ?n] dec by (simp add: frameBoundary_now)
  from len frameBoundary_now nth one total show ?thesis
    by blast
qed

theorem processTransactionData_partition_witness:
  "length (processTransactionData [saleAtNoon, tx ''8'' 60 income (noon - 1)] frame_weekly noon) = 12
   \<and> sum_list (map a_income
        (processTransactionData [saleAtNoon, tx ''8'' 60 income (noon - 1)] frame_weekly noon))
       = incomeOf [tx ''8'' 60 income (noon - 1)]"
proof -
  let ?txs = "[saleAtNoon, tx ''8'' 60 income (noon - 1)]"
  note T = processTransactionData_partition [of ?txs frame_weekly noon]
  have B: "frameBoundary noon frame_weekly (framePeriods frame_weekly) = noon - 84 * msPerDay"
    using setDate_minus [of noon 84] by (simp add: frameBoundary_def framePeriods_def)
  from T have a: "length (processTransactionData ?txs frame_weekly noon) = 12"
    by (simp add: framePeriods_def)
  from T have b: "sum_list (map a_income (processTransactionData ?txs frame_weekly noon)) =
      incomeOf (filter (\<lambda>t. frameBoundary noon frame_weekly (framePeriods frame_weekly) \<le> tdate t
                            \<and> tdate t < noon) ?txs)"
    by blast
  show ?thesis
    unfolding a b B
    by (simp add: saleAtNoon_def tx_def noon_def msPerDay_def)
qed

lemma chartWindow_yearly:
  "chartWindow now yearly =
     (MakeDate (DayFromYear (getFullYear now - 4)) (TimeWithinDay now), 5, year)"
proof -
  define T where "T = TimeWithinDay now"
  define Y where "Y = getFullYear now - 4"
  have T: "0 \<le> T" "T < msPerDay"
    by (simp_all add: T_def TimeWithinDay_range)
  define d1 where "d1 = MakeDay Y (getMonth now) (getDate now)"
  have t1: "setFullYear now Y = MakeDate d1 T"
    by (simp add: setFullYear_def d1_def T_def)
  have y1: "YearFromDay d1 = Y"
    unfolding d1_def by (intro YearFromDay_MakeDay getMonth_range getDate_range)
  define d2 where "d2 = MakeDay Y 0 (DateFromDay d1)"
  have t2: "setMonth (MakeDate d1 T) 0 = MakeDate d2 T"
    by (simp add: setMonth_def getters_MakeDate [OF T] TimeWithinDay_MakeDate [OF T] y1 d2_def)
  have y2: "YearFromDay d2 = Y"
    unfolding d2_def by (intro YearFromDay_MakeDay DateFromDay_range) simp_all
  have m2: "MonthFromDay d2 = 0"
    unfolding d2_def by (intro MonthFromDay_january DateFromDay_range)
  have "setDate (MakeDate d2 T) 1 = MakeDate (MakeDay Y 0 1) T"
    by (simp add: setDate_def getters_MakeDate [OF T] TimeWithinDay_MakeDate [OF T] y2 m2)
  also have "MakeDay Y 0 1 = DayFromYear Y"
    using MakeDay_plain [of 0 Y 1] by (simp add: monthStarts_first_last)
  finally have "setDate (setMonth (setFullYear now Y) 0) 1 = MakeDate (DayFromYear Y) T"
    by (simp add: t1 t2)
  then show ?thesis
    by (simp add: chartWindow_def Y_def T_def)
qed

lemma counted_yearly:
  assumes "chartWindow now yearly = (s, n, pt)"
  shows "counted now s n pt t \<longleftrightarrow> s \<le> tdate t \<and> tdate t \<le> now"
proof -
  from assms have s: "s = MakeDate (DayFromYear (getFullYear now - 4)) (TimeWithinDay now)"
    and n: "n = 5" and pt: "pt = year"
    by (simp_all add: chartWindow_yearly)
  have ys: "getFullYear s = getFullYear now - 4"
    unfolding s
    by (simp add: getters_MakeDate TimeWithinDay_range YearFromDay_DayFromYear)
  have "0 \<le> getFullYear (tdate t) - getFullYear s
      \<and> getFullYear (tdate t) - getFullYear s < 5"
    if "s \<le> tdate t" "tdate t \<le> now"
    using getFullYear_mono [OF that(1)] getFullYear_mono [OF that(2)] ys by simp
  then show ?thesis
    by (auto simp: counted_def n pt periodIndex_def)
qed

lemma chartWindow_monthly:
  "chartWindow now monthly =
     (let d1 = MakeDay (getFullYear now) (getMonth now - 11) (getDate now)
      in MakeDate (MakeDay (YearFromDay d1) (MonthFromDay d1) 1) (TimeWithinDay now), 12, month)"
proof -
  define T where "T = TimeWithinDay now"
  have T: "0 \<le> T" "T < msPerDay"
    by (simp_all add: T_def TimeWithinDay_range)
  define d1 where "d1 = MakeDay (getFullYear now) (getMonth now - 11) (getDate now)"
  have t1: "setMonth now (getMonth now - 11) = MakeDate d1 T"
    by (simp add: setMonth_def d1_def T_def)
  have "setDate (MakeDate d1 T) 1 = MakeDate (MakeDay (YearFromDay d1) (MonthFromDay d1) 1) T"
    by (simp add: setDate_def getters_MakeDate [OF T] TimeWithinDay_MakeDate [OF T])
  then show ?thesis
    by (simp add: chartWindow_def t1 Let_def d1_def T_def)
qed

lemma counted_monthly:
  assumes "chartWindow now monthly = (s, n, pt)"
  shows "counted now s n pt t \<longleftrightarrow> s \<le> tdate t \<and> tdate t \<le> now"
proof -
  define T where "T = TimeWithinDay now"
  have T: "0 \<le> T" "T < msPerDay"
    by (simp_all add: T_def TimeWithinDay_range)
  define d1 where "d1 = MakeDay (getFullYear now) (getMonth now - 11) (getDate now)"
  define mi where "mi = (\<lambda>u. 12 * getFullYear u + getMonth u)"
  from assms have s: "s = MakeDate (MakeDay (YearFromDay d1) (MonthFromDay d1) 1) T"
    and n: "n = 12" and pt: "pt = month"
    by (simp_all add: chartWindow_monthly Let_def d1_def T_def)
  have mono: "mi u1 \<le> mi u2" if "u1 \<le> u2" for u1 u2
    unfolding mi_def getFullYear_def getMonth_def
    by (intro month_index_mono Day_mono that)
  have "mi s = 12 * YearFromDay (MakeDay (YearFromDay d1) (MonthFromDay d1) 1)
      + MonthFromDay (MakeDay (YearFromDay d1) (MonthFromDay d1) 1)"
    by (simp add: mi_def s getters_MakeDate [OF T])
  then have ms: "mi s = 12 * YearFromDay d1 + MonthFromDay d1"
    by (simp only: month_index_first_of_month)
  have "MakeDay (getFullYear now) (getMonth now - 11) 1 \<le> d1"
    unfolding d1_def by (intro MakeDay_date_mono getDate_range)
  from month_index_mono [OF this]
  have "12 * getFullYear now + (getMonth now - 11) \<le> 12 * YearFromDay d1 + MonthFromDay d1"
    by (simp only: month_index_first_of_month)
  with ms have lo: "mi now - 11 \<le> mi s"
    by (simp add: mi_def)
  have idx: "periodIndex month s u = mi u - mi s" for u
    by (simp add: periodIndex_def mi_def algebra_simps)
  have "0 \<le> mi (tdate t) - mi s \<and> mi (tdate t) - mi s < 12"
    if "s \<le> tdate t" "tdate t \<le> now"
    using mono [OF that(1)] mono [OF that(2)] lo by simp
  then show ?thesis
    by (auto simp: counted_def n pt idx)
qed

lemma bucketTransactions_closed_window:
  assumes cw: "chartWindow now timeRange = (s, n, pt)"
    and all: "\<And>t. counted now s n pt t \<longleftrightarrow> s \<le> tdate t \<and> tdate t \<le> now"
  shows "length (bucketTransactions now timeRange txs) = n"
    and "sum_list (map p_income (bucketTransactions now timeRange txs))
          = incomeOf (filter (inWindow now timeRange) txs)"
    and "j < n \<Longrightarrow> p_income (bucketTransactions now timeRange txs ! j)
          = incomeOf (filter (\<lambda>t. inWindow now timeRange t \<and> periodIndex pt s (tdate t) = int j) txs)"
    and "inWindow now timeRange t \<Longrightarrow>
          0 \<le> periodIndex pt s (tdate t) \<and> periodIndex pt s (tdate t) < int n"
proof -
  have b: "bucketTransactions now timeRange txs
      = foldl (processTransaction now s n pt) (initPeriods s n pt) txs"
    by (simp add: bucketTransactions_def cw)
  have len: "length (initPeriods s n pt) = n"
    by (simp add: initPeriods_def)
  have zero: "sum_list (map p_income (initPeriods s n pt)) = 0"
    by (simp add: initPeriods_def comp_def)
  have w: "inWindow now timeRange = (\<lambda>t. s \<le> tdate t \<and> tdate t \<le> now)"
    by (intro ext) (simp add: inWindow_def cw)
  show "length (bucketTransactions now timeRange txs) = n"
    by (simp add: b foldl_processTransaction_length len)
  have c: "counted now s n pt = inWindow now timeRange"
    unfolding w using all by (intro ext)
  show "sum_list (map p_income (bucketTransactions now timeRange txs))
          = incomeOf (filter (inWindow now timeRange) txs)"
    unfolding b foldl_processTransaction_income_total [OF len] zero c by simp
  show r: "0 \<le> periodIndex pt s (tdate t) \<and> periodIndex pt s (tdate t) < int n"
    if "inWindow now timeRange t" for t
    using that c [symmetric] by (simp add: counted_def)
  show "p_income (bucketTransactions now timeRange txs ! j)
          = incomeOf (filter (\<lambda>t. inWindow now timeRange t \<and> periodIndex pt s (tdate t) = int j) txs)"
    if j: "j < n"
  proof -
    have cj: "(\<lambda>t. counted now s n pt t \<and> nat (periodIndex pt s (tdate t)) = j)
        = (\<lambda>t. inWindow now timeRange t \<and> periodIndex pt s (tdate t) = int j)"
    proof (intro ext)
      fix t
      show "(counted now s n pt t \<and> nat (periodIndex pt s (tdate t)) = j)
          = (inWindow now timeRange t \<and> periodIndex pt s (tdate t) = int j)"
        using r [of t] by (auto simp: c)
    qed
    have z: "p_income (initPeriods s n pt ! j) = 0"
      using j by (simp add: initPeriods_def)
    show ?thesis
      unfolding b foldl_processTransaction_income_nth [OF len j] cj z by simp
  qed
qed

text \<open>
  For the monthly and yearly ranges the buckets cover the whole window, its end included:
  every transaction that passes the window test has a period index among the 12 (5)
  buckets, bucket \<open>j\<close> holds exactly the income of the transactions in the window whose
  period index is \<open>j\<close>, and the bucket incomes sum to the income within the window.
\<close>

theorem chart_buckets_partition_closed_window:
  assumes "timeRange = monthly \<or> timeRange = yearly"
  shows "let (s, n, pt) = chartWindow now timeRange;
             pd = bucketTransactions now timeRange txs
         in n = (if timeRange = monthly then 12 else 5)
            \<and> length pd = n
            \<and> (\<forall>t. inWindow now timeRange t \<longrightarrow>
                  0 \<le> periodIndex pt s (tdate t) \<and> periodIndex pt s (tdate t) < int n)
            \<and> (\<forall>j < n. p_income (pd ! j) =
                  incomeOf (filter (\<lambda>t. inWindow now timeRange t
                                        \<and> periodIndex pt s (tdate t) = int j) txs))
            \<and> sum_list (map p_income pd) = incomeOf (filter (inWindow now timeRange) txs)"
proof -
  obtain s n pt where cw: "chartWindow now timeRange = (s, n, pt)"
    by (cases "chartWindow now timeRange")
  have all: "counted now s n pt t \<longleftrightarrow> s \<le> tdate t \<and> tdate t \<le> now" for t
    using assms cw counted_monthly counted_yearly by blast
  have n: "n = (if timeRange = monthly then 12 else 5)"
    using assms cw by (auto simp: chartWindow_monthly chartWindow_yearly Let_def)
  note B = bucketTransactions_closed_window [OF cw all]
  show ?thesis
    unfolding cw Let_def split_conv using n B by blast
qed

lemma chartWindow_noon_monthly: "chartWindow noon monthly = (1764590400000, 12, month)"
proof -
  have "setMonth noon (getMonth noon - 11) = 1764676800000"
    by code_simp
  moreover have "setDate 1764676800000 1 = 1764590400000"
    by code_simp
  ultimately show ?thesis
    by (simp add: chartWindow_def)
qed

lemma chartWindow_noon_yearly: "chartWindow noon yearly = (1641038400000, 5, year)"
proof -
  have "setFullYear noon (getFullYear noon - 4) = 1667390400000"
    by code_simp
  moreover have "setMonth 1667390400000 0 = 1641124800000"
    by code_simp
  moreover have "setDate 1641124800000 1 = 1641038400000"
    by code_simp
  ultimately show ?thesis
    by (simp add: chartWindow_def)
qed

theorem chart_buckets_partition_closed_window_witness:
  "inWindow noon monthly saleAtNoon
   \<and> sum_list (map p_income (bucketTransactions noon monthly [saleAtNoon])) = 100
   \<and> inWindow noon yearly saleAtNoon
   \<and> sum_list (map p_income (bucketTransactions noon yearly [saleAtNoon])) = 100"
proof -
  have wm: "inWindow noon monthly saleAtNoon" and wy: "inWindow noon yearly saleAtNoon"
    by (simp_all add: inWindow_def chartWindow_noon_monthly chartWindow_noon_yearly
        saleAtNoon_def tx_def) (simp_all add: noon_def)
  have sale: "incomeOf [saleAtNoon] = 100"
    by (simp add: incomeOf_def saleAtNoon_def tx_def)
  have m: "monthly = monthly \<or> monthly = yearly" and y: "yearly = monthly \<or> yearly = yearly"
    by simp_all
  note M = chart_buckets_partition_closed_window [OF m, of noon "[saleAtNoon]",
      unfolded chartWindow_noon_monthly Let_def split_conv]
  note Y = chart_buckets_partition_closed_window [OF y, of noon "[saleAtNoon]",
      unfolded chartWindow_noon_yearly Let_def split_conv]
  from M have "sum_list (map p_income (bucketTransactions noon monthly [saleAtNoon]))
      = incomeOf (filter (inWindow noon monthly) [saleAtNoon])"
    by blast
  moreover from Y have "sum_list (map p_income (bucketTransactions noon yearly [saleAtNoon]))
      = incomeOf (filter (inWindow noon yearly) [saleAtNoon])"
    by blast
  ultimately show ?thesis
    using wm wy sale by simp
qed

text \<open>
  The monthly and yearly ranges of the same chart do count a transaction dated \<open>now\<close>, in
  their last bucket.
\<close>

lemma monthly_and_yearly_count_transaction_at_now:
  "p_income (bucketTransactions noon monthly [saleAtNoon] ! 11) = 100
   \<and> p_income (bucketTransactions noon yearly [saleAtNoon] ! 4) = 100"
proof -
  have im: "periodIndex month 1764590400000 noon = 11"
    by code_simp
  have iy: "periodIndex year 1641038400000 noon = 4"
    by code_simp
  have n: "(1764590400000::int) \<le> noon" "(1641038400000::int) \<le> noon"
    by (simp_all add: noon_def)
  have sale: "tdate saleAtNoon = noon" "ttype saleAtNoon = income" "amount saleAtNoon = 100"
    by (simp_all add: saleAtNoon_def tx_def)
  have "p_income (bucketTransactions noon monthly [saleAtNoon] ! 11) = 100"
    using foldl_processTransaction_income_nth
      [of "initPeriods 1764590400000 12 month" 12 11 noon 1764590400000 month "[saleAtNoon]"]
    by (simp add: bucketTransactions_def chartWindow_noon_monthly initPeriods_def counted_def
        sale im n incomeOf_def)
  moreover have "p_income (bucketTransactions noon yearly [saleAtNoon] ! 4) = 100"
    using foldl_processTransaction_income_nth
      [of "initPeriods 1641038400000 5 year" 5 4 noon 1641038400000 year "[saleAtNoon]"]
    by (simp add: bucketTransactions_def chartWindow_noon_yearly initPeriods_def counted_def
        sale iy n incomeOf_def)
  ultimately show ?thesis
    by simp
qed

end
